theory Spec2Isabelle
  imports Main
begin

section \<open>Data model\<close>

text \<open>
  Attribute values are Go \<^verbatim>\<open>interface{}\<close> values. The dynamic types the
  post-processing hooks test for are strings, ints, \<^verbatim>\<open>[]interface{}\<close>,
  \<^verbatim>\<open>map[string]interface{}\<close> and \<^verbatim>\<open>InterpolationString\<close>; \<open>VNil\<close> is the
  nil interface stored under a key, \<open>VBool\<close> a further dynamic type that fails every
  assertion the hooks make.
\<close>

datatype val =
    VNil
  | VString string
  | VInt int
  | VBool bool
  | VInterpolation string
  | VList "val list"
  | VMap "string \<Rightarrow> val option"

text \<open>
  Modelled from the spec: the struct \<^verbatim>\<open>OCIResource\<close> with its embedded
  \<^verbatim>\<open>TerraformResource\<close> is declared outside the source files at hand. The spec
  describes it as the identifying attributes (id, compartment id, Terraform class,
  generated Terraform name, optional import id), the attribute mapping from string keys to
  dynamically typed values, the link to the parent, and the flag that omits it from the
  export; the field names are the ones the hooks use, among them the reference string
  \<^verbatim>\<open>terraformReferenceIdString\<close>. \<^verbatim>\<open>rawResource\<close> and \<^verbatim>\<open>getHclStringFn\<close> are
  never read by the functions modelled here and are left out. The attribute map of a
  discovered resource is never nil. Resources are held by value: discovery creates every
  resource afresh, so no two entries of a list are the same pointer, and a hook never
  writes to a parent.
\<close>

datatype OCIResource = OCIResource
  (compartmentId: string)
  (sourceAttributes: "string \<Rightarrow> val option")
  (id_field: string)
  (terraformClass: string)
  (terraformName: string)
  (terraformReferenceIdString: string)
  (importId: string)
  (omitFromExport: bool)
  (parent: "OCIResource option")

definition setAttr :: "OCIResource \<Rightarrow> string \<Rightarrow> val \<Rightarrow> OCIResource" where
  "setAttr r k v =
     OCIResource (compartmentId r) ((sourceAttributes r)(k \<mapsto> v)) (id_field r)
       (terraformClass r) (terraformName r) (terraformReferenceIdString r) (importId r)
       (omitFromExport r) (parent r)"

definition setId :: "OCIResource \<Rightarrow> string \<Rightarrow> OCIResource" where
  "setId r v =
     OCIResource (compartmentId r) (sourceAttributes r) v
       (terraformClass r) (terraformName r) (terraformReferenceIdString r) (importId r)
       (omitFromExport r) (parent r)"

definition setTerraformClass :: "OCIResource \<Rightarrow> string \<Rightarrow> OCIResource" where
  "setTerraformClass r v =
     OCIResource (compartmentId r) (sourceAttributes r) (id_field r)
       v (terraformName r) (terraformReferenceIdString r) (importId r)
       (omitFromExport r) (parent r)"

definition setTerraformReferenceIdString :: "OCIResource \<Rightarrow> string \<Rightarrow> OCIResource" where
  "setTerraformReferenceIdString r v =
     OCIResource (compartmentId r) (sourceAttributes r) (id_field r)
       (terraformClass r) (terraformName r) v (importId r)
       (omitFromExport r) (parent r)"

text \<open>
  The process-wide maps \<^verbatim>\<open>referenceMap\<close> and \<^verbatim>\<open>vars\<close>, both from strings to
  strings, threaded explicitly: a hook takes the globals and gives back the globals it
  leaves.
\<close>

record globals =
  referenceMap :: "string \<Rightarrow> string option"
  vars :: "string \<Rightarrow> string option"

text \<open>
  Functions of the repository that the hooks call and whose bodies are not among the
  source files: the HCL expression builders of \<^verbatim>\<open>tfHclVersion\<close>, the reference of a
  resource, and the composite-id builders. They are parameters of the model; each is a
  function of its arguments only.
\<close>

record helpers =
  getDoubleExpHclString :: "string \<Rightarrow> string \<Rightarrow> string"
  getDataSourceHclString :: "string \<Rightarrow> string \<Rightarrow> string"
  getVarHclString :: "string \<Rightarrow> string"
  getTerraformReference :: "OCIResource \<Rightarrow> string"
  getBackendSetCompositeId :: "string \<Rightarrow> string \<Rightarrow> string"
  getBackendCompositeId :: "string \<Rightarrow> string \<Rightarrow> string \<Rightarrow> string"
  getHostnameCompositeId :: "string \<Rightarrow> string \<Rightarrow> string"
  getPathRouteSetCompositeId :: "string \<Rightarrow> string \<Rightarrow> string"
  getRuleSetCompositeId :: "string \<Rightarrow> string \<Rightarrow> string"
  getCertificateCompositeId :: "string \<Rightarrow> string \<Rightarrow> string"
  getBucketCompositeId :: "string \<Rightarrow> string \<Rightarrow> string"

text \<open>Go error values, one constructor per error the modelled functions build or pass on.\<close>

datatype error =
    ErrAvailabilityDomainHasNoName nat
  | ErrNamespaceHasNoName
  | ErrNoIndexFound string
  | ErrBucketName
  | ErrBucketNamespace
  | ErrNumError string
  | ErrService string

text \<open>
  A Go call either returns its results or panics (a failed unchecked type assertion, a
  nil pointer dereference).
\<close>

datatype 'a outcome = Returns 'a | Panics

text \<open>
  \<^verbatim>\<open>v, ok := m[k].(string)\<close>: a missing key reads as the nil interface, which is no
  string.
\<close>

definition asString :: "val option \<Rightarrow> string option" where
  "asString v = (case v of Some (VString s) \<Rightarrow> Some s | _ \<Rightarrow> None)"

abbreviation newline :: char where
  "newline \<equiv> CHR 0x0A"

abbreviation dquote :: char where
  "dquote \<equiv> CHR 0x22"

section \<open>Library functions of Go\<close>

text \<open>\<^verbatim>\<open>fmt.Sprintf("%v", i)\<close> for an int: its decimal representation.\<close>

fun digits :: "nat \<Rightarrow> string" where
  "digits n =
     (if n < 10 then [''0123456789'' ! n]
      else digits (n div 10) @ [''0123456789'' ! (n mod 10)])"

declare digits.simps [simp del]

definition itoa :: "int \<Rightarrow> string" where
  "itoa i = (if i < 0 then CHR ''-'' # digits (nat (- i)) else digits (nat i))"

text \<open>
  \<^verbatim>\<open>strconv.ParseInt(s, 10, 64)\<close>: an optional sign, then one or more decimal digits,
  and the value must fit a signed 64-bit integer. \<open>None\<close> stands for the
  \<^verbatim>\<open>*NumError\<close> (syntax or range) it returns otherwise.
\<close>

definition digitValue :: "char \<Rightarrow> nat option" where
  "digitValue c =
     (if (48::nat) \<le> of_char c \<and> of_char c \<le> (57::nat) then Some (of_char c - 48) else None)"

fun parseDigits :: "nat \<Rightarrow> string \<Rightarrow> nat option" where
  "parseDigits n [] = Some n"
| "parseDigits n (c # cs) =
     (case digitValue c of None \<Rightarrow> None | Some d \<Rightarrow> parseDigits (n * 10 + d) cs)"

definition ParseInt :: "string \<Rightarrow> int option" where
  "ParseInt s =
     (case s of
        [] \<Rightarrow> None
      | c # cs \<Rightarrow>
          (let neg = (c = CHR ''-'');
               s0 = (if c = CHR ''+'' \<or> c = CHR ''-'' then cs else s)
           in if s0 = [] then None
              else case parseDigits 0 s0 of
                     None \<Rightarrow> None
                   | Some un \<Rightarrow>
                       if \<not> neg \<and> un \<ge> 2 ^ 63 then None
                       else if neg \<and> un > 2 ^ 63 then None
                       else Some (if neg then - int un else int un)))"

section \<open>Filtering hooks\<close>

text \<open>
  \<^verbatim>\<open>filterSourcedBootVolumes\<close>: the loop over \<^verbatim>\<open>resources\<close>, appending to
  \<^verbatim>\<open>results\<close>.
\<close>

fun filterSourcedBootVolumes_loop :: "OCIResource list \<Rightarrow> OCIResource list \<Rightarrow> OCIResource list" where
  "filterSourcedBootVolumes_loop results [] = results"
| "filterSourcedBootVolumes_loop results (bootVolume # rest) =
     (case sourceAttributes bootVolume ''source_details'' of
        None \<Rightarrow> filterSourcedBootVolumes_loop results rest
      | Some sourceDetails \<Rightarrow>
          (case sourceDetails of
             VList sourceDetailsList \<Rightarrow>
               if length sourceDetailsList = 0 then filterSourcedBootVolumes_loop results rest
               else filterSourcedBootVolumes_loop (results @ [bootVolume]) rest
           | _ \<Rightarrow> filterSourcedBootVolumes_loop results rest))"

definition filterSourcedBootVolumes :: "OCIResource list \<Rightarrow> OCIResource list \<times> error option" where
  "filterSourcedBootVolumes resources = (filterSourcedBootVolumes_loop [] resources, None)"

section \<open>Availability domains and object storage\<close>

text \<open>
  \<^verbatim>\<open>processAvailabilityDomains\<close>: the resources are updated in place, so the slice
  returned next to an error holds the availability domains already given an index.
\<close>

fun processAvailabilityDomains_loop ::
  "helpers \<Rightarrow> nat \<Rightarrow> globals \<Rightarrow> OCIResource list \<Rightarrow> globals \<times> OCIResource list \<times> error option" where
  "processAvailabilityDomains_loop h idx g [] = (g, [], None)"
| "processAvailabilityDomains_loop h idx g (ad # rest) =
     (let ad' = setAttr ad ''index'' (VInt (int idx + 1)) in
      case asString (sourceAttributes ad' ''name'') of
        None \<Rightarrow> (g, ad' # rest, Some (ErrAvailabilityDomainHasNoName idx))
      | Some adName \<Rightarrow>
          if adName = [] then (g, ad' # rest, Some (ErrAvailabilityDomainHasNoName idx))
          else
            (let g' = g\<lparr>referenceMap := (referenceMap g)
                         (adName \<mapsto> getDataSourceHclString h (getTerraformReference h ad') ''name'')\<rparr>
             in case processAvailabilityDomains_loop h (Suc idx) g' rest of
                  (g'', rest', err) \<Rightarrow> (g'', ad' # rest', err)))"

definition processAvailabilityDomains ::
  "helpers \<Rightarrow> globals \<Rightarrow> OCIResource list \<Rightarrow> globals \<times> OCIResource list \<times> error option" where
  "processAvailabilityDomains h g resources = processAvailabilityDomains_loop h 0 g resources"

fun processObjectStorageNamespace ::
  "helpers \<Rightarrow> globals \<Rightarrow> OCIResource list \<Rightarrow> globals \<times> OCIResource list \<times> error option" where
  "processObjectStorageNamespace h g [] = (g, [], None)"
| "processObjectStorageNamespace h g (ns # rest) =
     (case asString (sourceAttributes ns ''namespace'') of
        None \<Rightarrow> (g, ns # rest, Some ErrNamespaceHasNoName)
      | Some namespaceName \<Rightarrow>
          if namespaceName = [] then (g, ns # rest, Some ErrNamespaceHasNoName)
          else
            (let g' = g\<lparr>referenceMap := (referenceMap g)
                         (namespaceName \<mapsto>
                            getDataSourceHclString h (getTerraformReference h ns) ''namespace'')\<rparr>
             in case processObjectStorageNamespace h g' rest of
                  (g'', rest', err) \<Rightarrow> (g'', ns # rest', err)))"

text \<open>
  The test both branches of the loop of \<^verbatim>\<open>processAvailabilityDomains\<close> make,
  as a predicate: the name is a string and is not empty.
\<close>

definition namedAd :: "OCIResource \<Rightarrow> bool" where
  "namedAd ad = (\<exists>s. sourceAttributes ad ''name'' = Some (VString s) \<and> s \<noteq> [])"

text \<open>
  \<^verbatim>\<open>getAvailabilityDomainHCLDatasource\<close>: the builder is the text written so far; a
  key missing from \<^verbatim>\<open>varMap\<close> reads as the empty string; \<^verbatim>\<open>adIndex.(int)\<close>
  panics on a value that is no int.
\<close>

definition getAvailabilityDomainHCLDatasource ::
  "helpers \<Rightarrow> string \<Rightarrow> OCIResource \<Rightarrow> (string \<Rightarrow> string option) \<Rightarrow> (string \<times> error option) outcome" where
  "getAvailabilityDomainHCLDatasource h builder ociRes varMap =
     (let b1 = builder @ ''data '' @ terraformClass ociRes @ '' '' @ terraformName ociRes
                 @ '' {'' @ [newline];
          b2 = b1 @ ''compartment_id = ''
                 @ (case varMap (compartmentId ociRes) of None \<Rightarrow> [] | Some v \<Rightarrow> v)
                 @ [newline]
      in case sourceAttributes ociRes ''index'' of
           None \<Rightarrow> Returns (b2, Some (ErrNoIndexFound (getTerraformReference h ociRes)))
         | Some adIndex \<Rightarrow>
             (case adIndex of
                VInt i \<Rightarrow>
                  Returns (b2 @ ''ad_number = '' @ [dquote] @ itoa i @ [dquote] @ [newline]
                              @ ''}'' @ [newline], None)
              | _ \<Rightarrow> Panics))"

definition getObjectStorageBucketId :: "helpers \<Rightarrow> OCIResource \<Rightarrow> string \<times> error option" where
  "getObjectStorageBucketId h resource =
     (case asString (sourceAttributes resource ''name'') of
        None \<Rightarrow> ([], Some ErrBucketName)
      | Some name \<Rightarrow>
          (case asString (sourceAttributes resource ''namespace'') of
             None \<Rightarrow> ([], Some ErrBucketNamespace)
           | Some namespace \<Rightarrow> (getBucketCompositeId h name namespace, None)))"

section \<open>Instances\<close>

text \<open>
  The first test of the loop body of \<^verbatim>\<open>processInstances\<close>: the instance has a
  \<^verbatim>\<open>freeform_tags\<close> attribute, it is a map, and the map has the instance-pool key.
\<close>

definition hasInstancePoolTag :: "OCIResource \<Rightarrow> bool" where
  "hasInstancePoolTag instance =
     (case sourceAttributes instance ''freeform_tags'' of
        None \<Rightarrow> False
      | Some freeformTags \<Rightarrow>
          (case freeformTags of
             VMap freeformTagMap \<Rightarrow>
               (case freeformTagMap ''oci:compute:instancepool'' of None \<Rightarrow> False | Some _ \<Rightarrow> True)
           | _ \<Rightarrow> False))"

text \<open>
  The three nested tests on \<^verbatim>\<open>source_details\<close>: the attribute exists, it is a
  non-empty list, and its first entry is a map. The result is that map and the rest of
  the list.
\<close>

definition firstSourceDetails :: "OCIResource \<Rightarrow> ((string \<Rightarrow> val option) \<times> val list) option" where
  "firstSourceDetails instance =
     (case sourceAttributes instance ''source_details'' of
        None \<Rightarrow> None
      | Some rawSourceDetailsList \<Rightarrow>
          (case rawSourceDetailsList of
             VList sourceDetailList \<Rightarrow>
               (case sourceDetailList of
                  [] \<Rightarrow> None
                | first # others \<Rightarrow>
                    (case first of VMap sourceDetails \<Rightarrow> Some (sourceDetails, others) | _ \<Rightarrow> None))
           | _ \<Rightarrow> None))"

text \<open>How one pass of the loop body ends.\<close>

datatype verdict = Skipped | Kept | Failed error | Panicked

text \<open>
  The loop body of \<^verbatim>\<open>processInstances\<close> for one instance, block by block.
  First the registration of the boot volume: when \<^verbatim>\<open>boot_volume_id\<close> is a string,
  \<^verbatim>\<open>referenceMap[bootVolumeIdStr]\<close> is assigned.
\<close>

definition registerBootVolume :: "helpers \<Rightarrow> globals \<Rightarrow> OCIResource \<Rightarrow> globals" where
  "registerBootVolume h g instance =
     (case asString (sourceAttributes instance ''boot_volume_id'') of
        None \<Rightarrow> g
      | Some bootVolumeIdStr \<Rightarrow>
          g\<lparr>referenceMap := (referenceMap g)
              (bootVolumeIdStr \<mapsto>
                 getDoubleExpHclString h (getTerraformReference h instance) ''boot_volume_id'')\<rparr>)"

text \<open>
  The block guarded by \<^verbatim>\<open>instance.sourceAttributes["image"].(string)\<close>: it writes
  \<^verbatim>\<open>source_id\<close> into the first source-details map, and assigns
  \<^verbatim>\<open>vars[imageVarName]\<close> and \<^verbatim>\<open>referenceMap[imageId]\<close>.
\<close>

definition setSourceId :: "OCIResource \<Rightarrow> (string \<Rightarrow> val option) \<Rightarrow> (string \<Rightarrow> val option)" where
  "setSourceId instance sourceDetails =
     (case asString (sourceAttributes instance ''image'') of
        None \<Rightarrow> sourceDetails
      | Some imageId \<Rightarrow> sourceDetails(''source_id'' \<mapsto> VString imageId))"

definition registerImage :: "helpers \<Rightarrow> globals \<Rightarrow> OCIResource \<Rightarrow> globals" where
  "registerImage h g instance =
     (case asString (sourceAttributes instance ''image'') of
        None \<Rightarrow> g
      | Some imageId \<Rightarrow>
          (let imageVarName = terraformName instance @ ''_source_image_id'' in
           g\<lparr>vars := (vars g)(imageVarName \<mapsto> [dquote] @ imageId @ [dquote]),
             referenceMap := (referenceMap g)(imageId \<mapsto> getVarHclString h imageVarName)\<rparr>))"

text \<open>
  The workaround for the boot volume size: \<^verbatim>\<open>bootVolumeSizeInGbs.(string)\<close> is an
  unchecked assertion and panics on a value that is no string; a string that
  \<^verbatim>\<open>strconv.ParseInt\<close> rejects makes the hook return the error; a size below 50 is
  deleted from the map.
\<close>

definition bootVolumeSizeWorkaround :: "(string \<Rightarrow> val option) \<Rightarrow> (string \<Rightarrow> val option) \<times> verdict" where
  "bootVolumeSizeWorkaround sourceDetails =
     (case sourceDetails ''boot_volume_size_in_gbs'' of
        None \<Rightarrow> (sourceDetails, Kept)
      | Some bootVolumeSizeInGbs \<Rightarrow>
          (case bootVolumeSizeInGbs of
             VString s \<Rightarrow>
               (case ParseInt s of
                  None \<Rightarrow> (sourceDetails, Failed (ErrNumError s))
                | Some bootVolumeSize \<Rightarrow>
                    if bootVolumeSize < 50
                    then (sourceDetails(''boot_volume_size_in_gbs'' := None), Kept)
                    else (sourceDetails, Kept))
           | _ \<Rightarrow> (sourceDetails, Panicked)))"

text \<open>
  The whole body. The map \<^verbatim>\<open>sourceDetails\<close> is the first entry of the list stored
  under \<^verbatim>\<open>source_details\<close>, so writing to it changes the instance's attribute: the
  model stores the updated map back.
\<close>

definition processInstance :: "helpers \<Rightarrow> globals \<Rightarrow> OCIResource \<Rightarrow> globals \<times> OCIResource \<times> verdict" where
  "processInstance h g instance =
     (if hasInstancePoolTag instance then (g, instance, Skipped)
      else
        let g1 = registerBootVolume h g instance
        in case firstSourceDetails instance of
             None \<Rightarrow> (g1, instance, Kept)
           | Some (sourceDetails, others) \<Rightarrow>
               (case bootVolumeSizeWorkaround (setSourceId instance sourceDetails) of
                  (sourceDetails', v) \<Rightarrow>
                    (registerImage h g1 instance,
                     setAttr instance ''source_details'' (VList (VMap sourceDetails' # others)),
                     v)))"

text \<open>
  The loop of \<^verbatim>\<open>processInstances\<close>. It yields the globals, the input slice as the
  loop left it (its elements are updated in place), the instances appended to
  \<^verbatim>\<open>results\<close>, and how the loop ended: \<open>Returns None\<close> when it ran to the end,
  \<open>Returns (Some err)\<close> at the early return, \<open>Panics\<close> at a panic.
\<close>

fun processInstances_loop ::
  "helpers \<Rightarrow> globals \<Rightarrow> OCIResource list \<Rightarrow>
     globals \<times> OCIResource list \<times> OCIResource list \<times> error option outcome" where
  "processInstances_loop h g [] = (g, [], [], Returns None)"
| "processInstances_loop h g (instance # rest) =
     (case processInstance h g instance of
        (g', instance', Skipped) \<Rightarrow>
          (case processInstances_loop h g' rest of
             (g'', rest', results, ending) \<Rightarrow> (g'', instance' # rest', results, ending))
      | (g', instance', Kept) \<Rightarrow>
          (case processInstances_loop h g' rest of
             (g'', rest', results, ending) \<Rightarrow> (g'', instance' # rest', instance' # results, ending))
      | (g', instance', Failed err) \<Rightarrow> (g', instance' # rest, [], Returns (Some err))
      | (g', instance', Panicked) \<Rightarrow> (g', instance' # rest, [], Panics))"

text \<open>
  \<^verbatim>\<open>processInstances\<close> returns \<^verbatim>\<open>results, nil\<close> at the end of the loop and
  \<^verbatim>\<open>resources, err\<close> at the early return.
\<close>

definition processInstances ::
  "helpers \<Rightarrow> globals \<Rightarrow> OCIResource list \<Rightarrow> globals \<times> (OCIResource list \<times> error option) outcome" where
  "processInstances h g resources =
     (case processInstances_loop h g resources of
        (g', resources', results, Returns None) \<Rightarrow> (g', Returns (results, None))
      | (g', resources', results, Returns (Some err)) \<Rightarrow> (g', Returns (resources', Some err))
      | (g', resources', results, Panics) \<Rightarrow> (g', Panics))"

section \<open>Hooks that update every resource in place\<close>

text \<open>
  \<^verbatim>\<open>for _, resource := range resources { ... }\<close> with a body that updates the
  resource it visits and may panic. The hooks below end with
  \<^verbatim>\<open>return resources, nil\<close>.
\<close>

fun forEach :: "(OCIResource \<Rightarrow> OCIResource outcome) \<Rightarrow> OCIResource list \<Rightarrow> OCIResource list outcome" where
  "forEach body [] = Returns []"
| "forEach body (resource # rest) =
     (case body resource of
        Panics \<Rightarrow> Panics
      | Returns resource' \<Rightarrow>
          (case forEach body rest of
             Panics \<Rightarrow> Panics
           | Returns rest' \<Rightarrow> Returns (resource' # rest')))"

definition returningNil :: "OCIResource list outcome \<Rightarrow> (OCIResource list \<times> error option) outcome" where
  "returningNil out = (case out of Panics \<Rightarrow> Panics | Returns resources \<Rightarrow> Returns (resources, None))"

subsection \<open>Default resources\<close>

text \<open>
  The loop bodies of \<^verbatim>\<open>processDefaultSecurityLists\<close>,
  \<^verbatim>\<open>processDefaultRouteTables\<close> and \<^verbatim>\<open>processDefaultDhcpOptions\<close> are the same
  statements up to two string constants: the parent's attribute (also the suffix of the
  reference) and the default class. \<^verbatim>\<open>resource.parent.sourceAttributes[...].(string)\<close>
  panics on a nil parent and on an attribute that is no string.
\<close>

definition processDefaultResource :: "helpers \<Rightarrow> string \<Rightarrow> string \<Rightarrow> OCIResource \<Rightarrow> OCIResource outcome" where
  "processDefaultResource h defaultIdAttr defaultClass resource =
     (case parent resource of
        None \<Rightarrow> Panics
      | Some parentResource \<Rightarrow>
          (case asString (sourceAttributes parentResource defaultIdAttr) of
             None \<Rightarrow> Panics
           | Some defaultId \<Rightarrow>
               if id_field resource = defaultId then
                 (let r1 = setAttr resource ''manage_default_resource_id'' (VString (id_field resource));
                      r2 = setTerraformClass r1 defaultClass
                  in if \<not> omitFromExport parentResource
                     then Returns (setTerraformReferenceIdString r2
                            (getTerraformReference h parentResource @ ''.'' @ defaultIdAttr))
                     else Returns r2)
               else Returns resource))"

definition processDefaultSecurityLists :: "helpers \<Rightarrow> OCIResource list \<Rightarrow> (OCIResource list \<times> error option) outcome" where
  "processDefaultSecurityLists h resources =
     returningNil (forEach (processDefaultResource h ''default_security_list_id''
                              ''oci_core_default_security_list'') resources)"

definition processDefaultRouteTables :: "helpers \<Rightarrow> OCIResource list \<Rightarrow> (OCIResource list \<times> error option) outcome" where
  "processDefaultRouteTables h resources =
     returningNil (forEach (processDefaultResource h ''default_route_table_id''
                              ''oci_core_default_route_table'') resources)"

definition processDefaultDhcpOptions :: "helpers \<Rightarrow> OCIResource list \<Rightarrow> (OCIResource list \<times> error option) outcome" where
  "processDefaultDhcpOptions h resources =
     returningNil (forEach (processDefaultResource h ''default_dhcp_options_id''
                              ''oci_core_default_dhcp_options'') resources)"

subsection \<open>Composite ids of load balancer children\<close>

text \<open>
  The loop bodies of \<^verbatim>\<open>processLoadBalancerBackendSets\<close>,
  \<^verbatim>\<open>processLoadBalancerHostnames\<close>, \<^verbatim>\<open>processLoadBalancerPathRouteSets\<close>,
  \<^verbatim>\<open>processLoadBalancerRuleSets\<close> and \<^verbatim>\<open>processLoadBalancerCertificates\<close>: the
  id becomes the composite of the resource's name attribute and the parent's id, and
  \<^verbatim>\<open>load_balancer_id\<close> becomes the parent's id. They differ in the attribute that
  holds the name and in the composite-id function with its argument order, passed here as
  a function of name and parent id. The unchecked \<^verbatim>\<open>.(string)\<close> and a nil parent
  panic.
\<close>

definition processLoadBalancerChild ::
  "string \<Rightarrow> (string \<Rightarrow> string \<Rightarrow> string) \<Rightarrow> OCIResource \<Rightarrow> OCIResource outcome" where
  "processLoadBalancerChild nameAttr compositeId resource =
     (case asString (sourceAttributes resource nameAttr) of
        None \<Rightarrow> Panics
      | Some name \<Rightarrow>
          (case parent resource of
             None \<Rightarrow> Panics
           | Some parentResource \<Rightarrow>
               Returns (setAttr (setId resource (compositeId name (id_field parentResource)))
                          ''load_balancer_id'' (VString (id_field parentResource)))))"

definition processLoadBalancerBackendSets :: "helpers \<Rightarrow> OCIResource list \<Rightarrow> (OCIResource list \<times> error option) outcome" where
  "processLoadBalancerBackendSets h resources =
     returningNil (forEach (processLoadBalancerChild ''name''
                              (\<lambda>name parentId. getBackendSetCompositeId h name parentId)) resources)"

definition processLoadBalancerHostnames :: "helpers \<Rightarrow> OCIResource list \<Rightarrow> (OCIResource list \<times> error option) outcome" where
  "processLoadBalancerHostnames h resources =
     returningNil (forEach (processLoadBalancerChild ''name''
                              (\<lambda>name parentId. getHostnameCompositeId h parentId name)) resources)"

definition processLoadBalancerPathRouteSets :: "helpers \<Rightarrow> OCIResource list \<Rightarrow> (OCIResource list \<times> error option) outcome" where
  "processLoadBalancerPathRouteSets h resources =
     returningNil (forEach (processLoadBalancerChild ''name''
                              (\<lambda>name parentId. getPathRouteSetCompositeId h parentId name)) resources)"

definition processLoadBalancerRuleSets :: "helpers \<Rightarrow> OCIResource list \<Rightarrow> (OCIResource list \<times> error option) outcome" where
  "processLoadBalancerRuleSets h resources =
     returningNil (forEach (processLoadBalancerChild ''name''
                              (\<lambda>name parentId. getRuleSetCompositeId h parentId name)) resources)"

definition processLoadBalancerCertificates :: "helpers \<Rightarrow> OCIResource list \<Rightarrow> (OCIResource list \<times> error option) outcome" where
  "processLoadBalancerCertificates h resources =
     returningNil (forEach (processLoadBalancerChild ''certificate_name''
                              (\<lambda>name parentId. getCertificateCompositeId h name parentId)) resources)"

text \<open>
  The loop body of \<^verbatim>\<open>processLoadBalancerBackends\<close>: the parent is the backend set,
  whose \<^verbatim>\<open>name\<close> and \<^verbatim>\<open>load_balancer_id\<close> attributes are read with unchecked
  assertions.
\<close>

definition processLoadBalancerBackend :: "helpers \<Rightarrow> OCIResource \<Rightarrow> OCIResource outcome" where
  "processLoadBalancerBackend h backend =
     (case asString (sourceAttributes backend ''name'') of
        None \<Rightarrow> Panics
      | Some name \<Rightarrow>
          (case parent backend of
             None \<Rightarrow> Panics
           | Some backendSet \<Rightarrow>
               (case asString (sourceAttributes backendSet ''name'') of
                  None \<Rightarrow> Panics
                | Some backendSetName \<Rightarrow>
                    (case asString (sourceAttributes backendSet ''load_balancer_id'') of
                       None \<Rightarrow> Panics
                     | Some loadBalancerId \<Rightarrow>
                         (let b1 = setId backend (getBackendCompositeId h name backendSetName loadBalancerId);
                              b2 = setAttr b1 ''load_balancer_id'' (VString loadBalancerId)
                          in if \<not> omitFromExport backendSet
                             then Returns (setAttr b2 ''backendset_name''
                                    (VInterpolation (getDoubleExpHclString h
                                       (getTerraformReference h backendSet) ''name'')))
                             else Returns (setAttr b2 ''backendset_name'' (VString backendSetName)))))))"

definition processLoadBalancerBackends :: "helpers \<Rightarrow> OCIResource list \<Rightarrow> (OCIResource list \<times> error option) outcome" where
  "processLoadBalancerBackends h resources =
     returningNil (forEach (processLoadBalancerBackend h) resources)"

text \<open>
  What the reclassification of one resource amounts to, in the words of the
  specification: with the parent's default id attribute a string, a resource whose id
  equals it gets the default class, the attribute \<^verbatim>\<open>manage_default_resource_id\<close> set
  to its id and, exactly when the parent is not omitted, the reference string through the
  parent; every other field stays. A resource with another id is unchanged.
\<close>

definition reclassifiedAsDefault ::
  "helpers \<Rightarrow> string \<Rightarrow> string \<Rightarrow> OCIResource \<Rightarrow> OCIResource \<Rightarrow> bool" where
  "reclassifiedAsDefault h defaultIdAttr defaultClass resource result =
     (\<exists>p d. parent resource = Some p \<and> sourceAttributes p defaultIdAttr = Some (VString d) \<and>
        (if id_field resource = d
         then terraformClass result = defaultClass \<and>
              sourceAttributes result =
                (sourceAttributes resource)(''manage_default_resource_id'' \<mapsto> VString (id_field resource)) \<and>
              terraformReferenceIdString result =
                (if omitFromExport p then terraformReferenceIdString resource
                 else getTerraformReference h p @ ''.'' @ defaultIdAttr) \<and>
              id_field result = id_field resource \<and>
              terraformName result = terraformName resource \<and>
              compartmentId result = compartmentId resource \<and>
              importId result = importId resource \<and>
              omitFromExport result = omitFromExport resource \<and>
              parent result = parent resource
         else result = resource))"

section \<open>Sequences of registrations\<close>

text \<open>
  The hooks that write the Reference Map are \<^verbatim>\<open>processInstances\<close>,
  \<^verbatim>\<open>processAvailabilityDomains\<close> and \<^verbatim>\<open>processObjectStorageNamespace\<close>. A
  sequence of post-processing operations is a list of calls to them, each on the
  globals the previous call left; the maps are process-wide, so what a call wrote stays
  written when the call ends with an error.
\<close>

datatype hookCall =
    Instances "OCIResource list"
  | AvailabilityDomains "OCIResource list"
  | ObjectStorageNamespaces "OCIResource list"

definition runHook :: "helpers \<Rightarrow> globals \<Rightarrow> hookCall \<Rightarrow> globals" where
  "runHook h g call =
     (case call of
        Instances resources \<Rightarrow> fst (processInstances h g resources)
      | AvailabilityDomains resources \<Rightarrow> fst (processAvailabilityDomains h g resources)
      | ObjectStorageNamespaces resources \<Rightarrow> fst (processObjectStorageNamespace h g resources))"

definition runHooks :: "helpers \<Rightarrow> globals \<Rightarrow> hookCall list \<Rightarrow> globals" where
  "runHooks h g calls = foldl (runHook h) g calls"

text \<open>
  The keys a call can register: the \<^verbatim>\<open>boot_volume_id\<close> and \<^verbatim>\<open>image\<close> strings of
  its instances, the \<^verbatim>\<open>name\<close> strings of its availability domains, the
  \<^verbatim>\<open>namespace\<close> strings of its namespaces.
\<close>

definition registers :: "hookCall \<Rightarrow> string \<Rightarrow> bool" where
  "registers call k =
     (case call of
        Instances resources \<Rightarrow>
          list_ex (\<lambda>i. asString (sourceAttributes i ''boot_volume_id'') = Some k
                      \<or> asString (sourceAttributes i ''image'') = Some k) resources
      | AvailabilityDomains resources \<Rightarrow>
          list_ex (\<lambda>ad. asString (sourceAttributes ad ''name'') = Some k) resources
      | ObjectStorageNamespaces resources \<Rightarrow>
          list_ex (\<lambda>ns. asString (sourceAttributes ns ''namespace'') = Some k) resources)"

section \<open>Paginated list operations\<close>

text \<open>
  A list response of the SDK: the items of one page and the token of the next page, if
  any. A list operation is a function from the request's page token (nil on the first
  request) to an error or a response; the other fields of the request are the same on
  every call and are part of that function.
\<close>

record 'a ListResponse =
  Items :: "'a list"
  OpcNextPage :: "string option"

type_synonym 'a listOperation = "string option \<Rightarrow> error + 'a ListResponse"

text \<open>
  \<^verbatim>\<open>for request.Page != nil { ... }\<close>, the same statements in
  \<^verbatim>\<open>IdentityTagNamespacesDataSourceCrud.Get\<close> and in \<^verbatim>\<open>findIdentityTags\<close>: fetch
  the page, return at an error, append the items, move to the next token. The loop need
  not end; \<open>None\<close> is the run that never returns. The result is the items collected and
  the error, if one ended the loop.
\<close>

partial_function (option) listRemainingPages ::
  "'a listOperation \<Rightarrow> 'a list \<Rightarrow> string option \<Rightarrow> ('a list \<times> error option) option" where
  "listRemainingPages list items page =
     (case page of
        None \<Rightarrow> Some (items, None)
      | Some token \<Rightarrow>
          (case list (Some token) of
             Inl err \<Rightarrow> Some (items, Some err)
           | Inr listResponse \<Rightarrow>
               listRemainingPages list (items @ Items listResponse) (OpcNextPage listResponse)))"

text \<open>
  \<^verbatim>\<open>IdentityTagNamespacesDataSourceCrud\<close>: of its fields only \<^verbatim>\<open>Res\<close> is written
  by \<^verbatim>\<open>Get\<close>. \<^verbatim>\<open>s.Res\<close> points to the first response before the loop starts, and
  the loop appends to its items, so at an error in a later page \<^verbatim>\<open>s.Res\<close> holds the
  pages fetched so far while \<^verbatim>\<open>Get\<close> returns the error.
\<close>

record 'a IdentityTagNamespacesDataSourceCrud =
  Res :: "'a ListResponse option"

definition Get ::
  "'a listOperation \<Rightarrow> 'a IdentityTagNamespacesDataSourceCrud \<Rightarrow>
     ('a IdentityTagNamespacesDataSourceCrud \<times> error option) option" where
  "Get ListTagNamespaces s =
     (case ListTagNamespaces None of
        Inl err \<Rightarrow> Some (s, Some err)
      | Inr response \<Rightarrow>
          (case listRemainingPages ListTagNamespaces (Items response) (OpcNextPage response) of
             None \<Rightarrow> None
           | Some (items, err) \<Rightarrow> Some (s\<lparr>Res := Some (response\<lparr>Items := items\<rparr>)\<rparr>, err)))"

text \<open>
  \<^verbatim>\<open>findIdentityTags\<close>. A tag summary is read for its \<^verbatim>\<open>Name\<close> only. The tag
  resource's \<^verbatim>\<open>Read\<close>, with the conversion of what it read, is a parameter: from
  the namespace id and the name it gives an error, or the id and the attributes of the
  tag. The second loop builds one resource per tag and returns the resources built so far
  with the error of a failed read; dereferencing a nil \<^verbatim>\<open>parent.parent\<close> or a nil
  \<^verbatim>\<open>tag.Name\<close> panics.
\<close>

record TagSummary =
  Name :: "string option"

type_synonym tagReader = "string \<Rightarrow> string option \<Rightarrow> error + (string \<times> (string \<Rightarrow> val option))"

fun findIdentityTags_resources ::
  "tagReader \<Rightarrow> string \<Rightarrow> OCIResource \<Rightarrow> TagSummary list \<Rightarrow> (OCIResource list \<times> error option) outcome" where
  "findIdentityTags_resources Read resourceClass parentResource [] = Returns ([], None)"
| "findIdentityTags_resources Read resourceClass parentResource (tag # rest) =
     (case Read (id_field parentResource) (Name tag) of
        Inl err \<Rightarrow> Returns ([], Some err)
      | Inr (ident, attributes) \<Rightarrow>
          (case parent parentResource of
             None \<Rightarrow> Panics
           | Some grandParent \<Rightarrow>
               (case Name tag of
                  None \<Rightarrow> Panics
                | Some tagName \<Rightarrow>
                    (let resource =
                           OCIResource (compartmentId parentResource) attributes ident resourceClass
                             (terraformName grandParent @ ''_'' @ tagName) [] [] False
                             (Some parentResource)
                     in case findIdentityTags_resources Read resourceClass parentResource rest of
                          Panics \<Rightarrow> Panics
                        | Returns (results, err) \<Rightarrow> Returns (resource # results, err)))))"

definition findIdentityTags ::
  "TagSummary listOperation \<Rightarrow> tagReader \<Rightarrow> string \<Rightarrow> OCIResource \<Rightarrow>
     (OCIResource list \<times> error option) outcome option" where
  "findIdentityTags ListTags Read resourceClass parentResource =
     (case ListTags None of
        Inl err \<Rightarrow> Some (Returns ([], Some err))
      | Inr response \<Rightarrow>
          (case listRemainingPages ListTags (Items response) (OpcNextPage response) of
             None \<Rightarrow> None
           | Some (items, Some err) \<Rightarrow> Some (Returns ([], Some err))
           | Some (items, None) \<Rightarrow>
               Some (findIdentityTags_resources Read resourceClass parentResource items)))"

text \<open>
  The pages of a list operation, in the words of the specification: starting from a
  page token, \<open>pagesFrom\<close> holds for the item lists of the pages fetched in order up to
  and including the first page that returns no next-page token; \<open>failsFrom\<close> holds for
  the error of a page request on that way.
\<close>

inductive pagesFrom :: "'a listOperation \<Rightarrow> string option \<Rightarrow> 'a list list \<Rightarrow> bool" where
  lastPage: "list page = Inr r \<Longrightarrow> OpcNextPage r = None \<Longrightarrow> pagesFrom list page [Items r]"
| nextPage: "list page = Inr r \<Longrightarrow> OpcNextPage r = Some token \<Longrightarrow>
             pagesFrom list (Some token) pages \<Longrightarrow> pagesFrom list page (Items r # pages)"

code_pred pagesFrom .

inductive failsFrom :: "'a listOperation \<Rightarrow> string option \<Rightarrow> error \<Rightarrow> bool" where
  failsHere: "list page = Inl err \<Longrightarrow> failsFrom list page err"
| failsLater: "list page = Inr r \<Longrightarrow> OpcNextPage r = Some token \<Longrightarrow>
               failsFrom list (Some token) err \<Longrightarrow> failsFrom list page err"

code_pred failsFrom .

section \<open>Examples\<close>

text \<open>
  Modelled from the spec: concrete helper functions for the worked examples. The spec
  gives a reference to a resource attribute as \<^verbatim>\<open><class>.<name>.<attr>\<close>, a
  data-source lookup and a variable reference as further expression forms, and a
  composite id as the parent's id joined with the child's name. The theorems below hold
  for every choice of helpers; these only serve to evaluate examples.
\<close>

definition specHelpers :: helpers where
  "specHelpers =
     \<lparr> getDoubleExpHclString = (\<lambda>ref attr. ref @ ''.'' @ attr),
       getDataSourceHclString = (\<lambda>ref attr. ''data.'' @ ref @ ''.'' @ attr),
       getVarHclString = (\<lambda>v. ''var.'' @ v),
       getTerraformReference =
         (\<lambda>r. if terraformReferenceIdString r = [] then terraformClass r @ ''.'' @ terraformName r
              else terraformReferenceIdString r),
       getBackendSetCompositeId = (\<lambda>name lb. lb @ ''/'' @ name),
       getBackendCompositeId = (\<lambda>name bs lb. lb @ ''/'' @ bs @ ''/'' @ name),
       getHostnameCompositeId = (\<lambda>lb name. lb @ ''/'' @ name),
       getPathRouteSetCompositeId = (\<lambda>lb name. lb @ ''/'' @ name),
       getRuleSetCompositeId = (\<lambda>lb name. lb @ ''/'' @ name),
       getCertificateCompositeId = (\<lambda>name lb. lb @ ''/'' @ name),
       getBucketCompositeId = (\<lambda>name ns. ns @ ''/'' @ name) \<rparr>"

definition noGlobals :: globals where
  "noGlobals = \<lparr> referenceMap = Map.empty, vars = Map.empty \<rparr>"

definition exampleAd :: "string \<Rightarrow> string \<Rightarrow> OCIResource" where
  "exampleAd tfName adName =
     OCIResource ''ocid1.tenancy'' [''name'' \<mapsto> VString adName] adName
       ''oci_identity_availability_domain'' tfName [] [] False None"

definition exampleAds :: "OCIResource list" where
  "exampleAds = [exampleAd ''ad1'' ''AD-0'', exampleAd ''ad2'' ''AD-1'', exampleAd ''ad3'' ''AD-2'']"

text \<open>Instances: one launched by an instance pool, one with a boot volume, one with a boot volume size.\<close>

definition exampleInstance :: "string \<Rightarrow> (string \<Rightarrow> val option) \<Rightarrow> OCIResource" where
  "exampleInstance name attrs =
     OCIResource ''ocid1.compartment'' attrs (''ocid1.instance.'' @ name)
       ''oci_core_instance'' name [] [] False None"

definition pooledInstance :: OCIResource where
  "pooledInstance =
     exampleInstance ''pooled''
       [''freeform_tags'' \<mapsto> VMap [''oci:compute:instancepool'' \<mapsto> VString ''ocid1.instancepool.1'']]"

definition plainInstance :: OCIResource where
  "plainInstance = exampleInstance ''inst1'' [''boot_volume_id'' \<mapsto> VString ''ocid1.bootvolume.1'']"

definition sizedInstance :: "string \<Rightarrow> OCIResource" where
  "sizedInstance sizeInGbs =
     exampleInstance ''inst2''
       [''source_details'' \<mapsto> VList [VMap [''boot_volume_size_in_gbs'' \<mapsto> VString sizeInGbs]]]"

text \<open>
  Examples: a VCN with its security lists, route table and DHCP options, and a load
  balancer with a backend set and a backend.
\<close>

definition exampleVcn :: "bool \<Rightarrow> OCIResource" where
  "exampleVcn omitted =
     OCIResource ''ocid1.compartment''
       [''default_security_list_id'' \<mapsto> VString ''ocid1.securitylist.default'',
        ''default_route_table_id'' \<mapsto> VString ''ocid1.routetable.default'',
        ''default_dhcp_options_id'' \<mapsto> VString ''ocid1.dhcpoptions.default'']
       ''ocid1.vcn.1'' ''oci_core_vcn'' ''vcn1'' [] [] omitted None"

definition exampleSecurityList :: "string \<Rightarrow> string \<Rightarrow> bool \<Rightarrow> OCIResource" where
  "exampleSecurityList ident name omitted =
     OCIResource ''ocid1.compartment'' Map.empty ident ''oci_core_security_list'' name [] []
       False (Some (exampleVcn omitted))"

definition exampleRouteTable :: OCIResource where
  "exampleRouteTable =
     OCIResource ''ocid1.compartment'' Map.empty ''ocid1.routetable.default''
       ''oci_core_route_table'' ''rt1'' [] [] False (Some (exampleVcn False))"

definition exampleDhcpOptions :: OCIResource where
  "exampleDhcpOptions =
     OCIResource ''ocid1.compartment'' Map.empty ''ocid1.dhcpoptions.default''
       ''oci_core_dhcp_options'' ''dhcp1'' [] [] False (Some (exampleVcn False))"

definition exampleLoadBalancer :: OCIResource where
  "exampleLoadBalancer =
     OCIResource ''ocid1.compartment'' Map.empty ''lb1'' ''oci_load_balancer_load_balancer''
       ''load_balancer1'' [] [] False None"

definition exampleBackendSet :: OCIResource where
  "exampleBackendSet =
     OCIResource ''ocid1.compartment'' [''name'' \<mapsto> VString ''bs1''] []
       ''oci_load_balancer_backend_set'' ''backend_set1'' [] [] False (Some exampleLoadBalancer)"

definition exampleBackend :: OCIResource where
  "exampleBackend =
     OCIResource ''ocid1.compartment'' [''name'' \<mapsto> VString ''10.0.0.3:8080''] []
       ''oci_load_balancer_backend'' ''backend1'' [] [] False
       (Some (OCIResource ''ocid1.compartment''
                [''name'' \<mapsto> VString ''bs1'', ''load_balancer_id'' \<mapsto> VString ''lb1'']
                ''lb1/bs1'' ''oci_load_balancer_backend_set'' ''backend_set1'' [] [] False
                (Some exampleLoadBalancer)))"

text \<open>Two instances launched from the same image.\<close>

definition imageInstance :: "string \<Rightarrow> OCIResource" where
  "imageInstance name =
     exampleInstance name
       [''image'' \<mapsto> VString ''ocid1.image.1'',
        ''source_details'' \<mapsto> VList [VMap [''source_type'' \<mapsto> VString ''image'']]]"

definition bootVolumeRegistered :: globals where
  "bootVolumeRegistered =
     \<lparr> referenceMap = [''ocid1.bootvolume.9'' \<mapsto> ''oci_core_boot_volume.bv9.id''],
       vars = Map.empty \<rparr>"

text \<open>An example list operation with three pages, and one whose third page fails.\<close>

definition threePages :: "nat listOperation" where
  "threePages page =
     (if page = None then Inr \<lparr>Items = [1, 2], OpcNextPage = Some ''p2''\<rparr>
      else if page = Some ''p2'' then Inr \<lparr>Items = [3], OpcNextPage = Some ''p3''\<rparr>
      else Inr \<lparr>Items = [4, 5], OpcNextPage = None\<rparr>)"

definition thirdPageFails :: "nat listOperation" where
  "thirdPageFails page =
     (if page = None then Inr \<lparr>Items = [1, 2], OpcNextPage = Some ''p2''\<rparr>
      else if page = Some ''p2'' then Inr \<lparr>Items = [3], OpcNextPage = Some ''p3''\<rparr>
      else Inl (ErrService ''TooManyRequests''))"

definition twoTagPages :: "TagSummary listOperation" where
  "twoTagPages page =
     (if page = None then Inr \<lparr>Items = [\<lparr>Name = Some ''CostCenter''\<rparr>], OpcNextPage = Some ''p2''\<rparr>
      else Inr \<lparr>Items = [\<lparr>Name = Some ''Owner''\<rparr>], OpcNextPage = None\<rparr>)"

definition secondTagPageFails :: "TagSummary listOperation" where
  "secondTagPageFails page =
     (if page = None then Inr \<lparr>Items = [\<lparr>Name = Some ''CostCenter''\<rparr>], OpcNextPage = Some ''p2''\<rparr>
      else Inl (ErrService ''TooManyRequests''))"

definition exampleRead :: tagReader where
  "exampleRead tagNamespaceId name =
     (case name of
        None \<Rightarrow> Inl (ErrService ''NotFound'')
      | Some n \<Rightarrow>
          Inr (''ocid1.tag.'' @ n,
               [''name'' \<mapsto> VString n, ''tag_namespace_id'' \<mapsto> VString tagNamespaceId]))"

definition exampleTagNamespace :: OCIResource where
  "exampleTagNamespace =
     OCIResource ''ocid1.compartment'' Map.empty ''ocid1.tagnamespace.1''
       ''oci_identity_tag_namespace'' ''tag_namespace1'' [] [] False
       (Some (OCIResource ''ocid1.tenancy'' Map.empty ''ocid1.compartment''
                ''oci_identity_compartment'' ''export_compartment'' [] [] False None))"

section \<open>Properties\<close>

subsection \<open>Boot volumes\<close>

lemma filterSourcedBootVolumes_loop_filter:
  "filterSourcedBootVolumes_loop results rs =
     results @ filter (\<lambda>bv. \<exists>l. sourceAttributes bv ''source_details'' = Some (VList l) \<and> l \<noteq> []) rs"
  by (induction rs arbitrary: results) (auto split: option.splits val.splits)

text \<open>
  C9: boot-volume post-processing returns, in order, exactly the boot volumes whose
  \<^verbatim>\<open>source_details\<close> attribute is a non-empty list; a boot volume whose attribute is
  missing, is not a list or is the empty list is dropped. The hook never fails.
\<close>

theorem filterSourcedBootVolumes_keeps_sourced:
  "filterSourcedBootVolumes resources =
     (filter (\<lambda>bv. \<exists>l. sourceAttributes bv ''source_details'' = Some (VList l) \<and> l \<noteq> []) resources, None)"
  by (simp add: filterSourcedBootVolumes_def filterSourcedBootVolumes_loop_filter)

subsection \<open>Field updates\<close>

lemma sel_setAttr [simp]:
  "sourceAttributes (setAttr r k v) = (sourceAttributes r)(k \<mapsto> v)"
  "compartmentId (setAttr r k v) = compartmentId r"
  "id_field (setAttr r k v) = id_field r"
  "terraformClass (setAttr r k v) = terraformClass r"
  "terraformName (setAttr r k v) = terraformName r"
  "terraformReferenceIdString (setAttr r k v) = terraformReferenceIdString r"
  "importId (setAttr r k v) = importId r"
  "omitFromExport (setAttr r k v) = omitFromExport r"
  "parent (setAttr r k v) = parent r"
  by (simp_all add: setAttr_def)

subsection \<open>Availability domains\<close>

lemma asString_Some: "asString v = Some s \<longleftrightarrow> v = Some (VString s)"
  by (auto simp: asString_def split: option.splits val.splits)

lemma asString_None: "asString v = None \<longleftrightarrow> (\<forall>s. v \<noteq> Some (VString s))"
  by (auto simp: asString_def split: option.splits val.splits)

lemma ad_loop_length:
  "processAvailabilityDomains_loop h idx g ads = (g', ads', err) \<Longrightarrow> length ads' = length ads"
  by (induction ads arbitrary: idx g g' ads' err)
     (auto simp: Let_def split: option.splits if_splits prod.splits)

lemma ad_loop_err:
  "(snd (snd (processAvailabilityDomains_loop h idx g ads)) = None) = (\<forall>ad\<in>set ads. namedAd ad)"
proof (induction ads arbitrary: idx g)
  case Nil
  then show ?case by simp
next
  case (Cons ad rest)
  show ?case
  proof (cases "namedAd ad")
    case True
    then obtain s where s: "sourceAttributes ad ''name'' = Some (VString s)" "s \<noteq> []"
      by (auto simp: namedAd_def)
    then show ?thesis using Cons.IH True
      by (simp add: Let_def asString_def split: prod.splits)
         (metis snd_conv)
  next
    case False
    then show ?thesis
      by (auto simp: Let_def namedAd_def asString_def split: option.splits val.splits)
  qed
qed

lemma ad_loop_index:
  "processAvailabilityDomains_loop h idx g ads = (g', ads', None) \<Longrightarrow> i < length ads \<Longrightarrow>
     ads' ! i = setAttr (ads ! i) ''index'' (VInt (int (idx + i) + 1))"
proof (induction ads arbitrary: idx g g' ads' i)
  case Nil
  then show ?case by simp
next
  case (Cons ad rest)
  from Cons.prems(1) obtain s g1 rest' where
    s: "asString (sourceAttributes (setAttr ad ''index'' (VInt (int idx + 1))) ''name'') = Some s" "s \<noteq> []"
    and r: "processAvailabilityDomains_loop h (Suc idx)
              (g\<lparr>referenceMap := (referenceMap g)(s \<mapsto> getDataSourceHclString h
                 (getTerraformReference h (setAttr ad ''index'' (VInt (int idx + 1)))) ''name'')\<rparr>) rest
            = (g1, rest', None)"
    and a: "ads' = setAttr ad ''index'' (VInt (int idx + 1)) # rest'" "g' = g1"
    by (auto simp: Let_def split: option.splits if_splits prod.splits)
  show ?case
  proof (cases i)
    case 0
    then show ?thesis using a by simp
  next
    case (Suc j)
    then have "j < length rest" using Cons.prems(2) by simp
    from Cons.IH[OF r this] show ?thesis using a Suc by simp
  qed
qed

lemma ad_loop_frame:
  "processAvailabilityDomains_loop h idx g ads = (g', ads', err) \<Longrightarrow>
     \<forall>ad\<in>set ads. sourceAttributes ad ''name'' \<noteq> Some (VString k) \<Longrightarrow>
     referenceMap g' k = referenceMap g k \<and> vars g' = vars g"
proof (induction ads arbitrary: idx g g' ads' err)
  case Nil
  then show ?case by simp
next
  case (Cons ad rest)
  show ?case
  proof (cases "namedAd ad")
    case False
    then show ?thesis using Cons.prems(1)
      by (auto simp: Let_def namedAd_def asString_def split: option.splits val.splits if_splits)
  next
    case True
    then obtain s where s: "sourceAttributes ad ''name'' = Some (VString s)" "s \<noteq> []"
      by (auto simp: namedAd_def)
    with Cons.prems(2) have sk: "s \<noteq> k" by auto
    let ?g1 = "g\<lparr>referenceMap := (referenceMap g)(s \<mapsto> getDataSourceHclString h
                 (getTerraformReference h (setAttr ad ''index'' (VInt (int idx + 1)))) ''name'')\<rparr>"
    from Cons.prems(1) s obtain rest' where
      r: "processAvailabilityDomains_loop h (Suc idx) ?g1 rest = (g', rest', err)"
      by (auto simp: Let_def asString_def split: prod.splits)
    from Cons.IH[OF r] Cons.prems(2) have "referenceMap g' k = referenceMap ?g1 k \<and> vars g' = vars ?g1"
      by simp
    then show ?thesis using sk by simp
  qed
qed

lemma ad_loop_registers:
  "processAvailabilityDomains_loop h idx g ads = (g', ads', None) \<Longrightarrow> i < length ads \<Longrightarrow>
     sourceAttributes (ads ! i) ''name'' = Some (VString s) \<Longrightarrow>
     \<exists>j<length ads. sourceAttributes (ads ! j) ''name'' = Some (VString s) \<and>
        referenceMap g' s = Some (getDataSourceHclString h (getTerraformReference h (ads' ! j)) ''name'')"
proof (induction ads arbitrary: idx g g' ads' i)
  case Nil
  then show ?case by simp
next
  case (Cons ad rest)
  let ?ad' = "setAttr ad ''index'' (VInt (int idx + 1))"
  from Cons.prems(1) obtain t rest' where
    t: "sourceAttributes ad ''name'' = Some (VString t)" "t \<noteq> []"
    and r: "processAvailabilityDomains_loop h (Suc idx)
              (g\<lparr>referenceMap := (referenceMap g)(t \<mapsto> getDataSourceHclString h
                 (getTerraformReference h ?ad') ''name'')\<rparr>) rest
            = (g', rest', None)"
    and a: "ads' = ?ad' # rest'"
    by (auto simp: Let_def asString_Some split: option.splits if_splits prod.splits)
  show ?case
  proof (cases "\<exists>j<length rest. sourceAttributes (rest ! j) ''name'' = Some (VString s)")
    case True
    then obtain j where j: "j < length rest" "sourceAttributes (rest ! j) ''name'' = Some (VString s)"
      by blast
    from Cons.IH[OF r j] obtain j' where
      "j' < length rest" "sourceAttributes (rest ! j') ''name'' = Some (VString s)"
      "referenceMap g' s = Some (getDataSourceHclString h (getTerraformReference h (rest' ! j')) ''name'')"
      by blast
    then show ?thesis using a
      by (intro exI[of _ "Suc j'"]) simp
  next
    case False
    then have none: "\<forall>ad\<in>set rest. sourceAttributes ad ''name'' \<noteq> Some (VString s)"
      by (metis in_set_conv_nth)
    have i0: "i = 0"
    proof (cases i)
      case (Suc j)
      then show ?thesis using False Cons.prems(2,3) by auto
    qed simp
    then have st: "s = t" using Cons.prems(3) t by simp
    from ad_loop_frame[OF r none] st
    have "referenceMap g' s = Some (getDataSourceHclString h (getTerraformReference h ?ad') ''name'')"
      by simp
    then show ?thesis using a t st
      by (intro exI[of _ 0]) simp
  qed
qed

lemma snd_snd_case3: "snd (snd (case p of (a, b, c) \<Rightarrow> (f a, k b, c))) = snd (snd p)"
  by (cases p) simp

lemma ns_err:
  "(snd (snd (processObjectStorageNamespace h g nss)) = None) =
     (\<forall>ns\<in>set nss. \<exists>s. sourceAttributes ns ''namespace'' = Some (VString s) \<and> s \<noteq> [])"
proof (induction nss arbitrary: g)
  case Nil
  then show ?case by simp
next
  case (Cons ns rest)
  show ?case
  proof (cases "\<exists>s. sourceAttributes ns ''namespace'' = Some (VString s) \<and> s \<noteq> []")
    case True
    then obtain s where s: "sourceAttributes ns ''namespace'' = Some (VString s)" "s \<noteq> []"
      by auto
    let ?g1 = "g\<lparr>referenceMap := (referenceMap g)
                 (s \<mapsto> getDataSourceHclString h (getTerraformReference h ns) ''namespace'')\<rparr>"
    have "snd (snd (processObjectStorageNamespace h g (ns # rest))) =
          snd (snd (processObjectStorageNamespace h ?g1 rest))"
      using s by (simp add: asString_def Let_def snd_snd_case3[where f="\<lambda>x. x"])
    then show ?thesis using Cons.IH[of ?g1] True by simp
  next
    case False
    have "snd (snd (processObjectStorageNamespace h g (ns # rest))) = Some ErrNamespaceHasNoName"
    proof (cases "asString (sourceAttributes ns ''namespace'')")
      case None
      then show ?thesis by simp
    next
      case (Some t)
      then have "sourceAttributes ns ''namespace'' = Some (VString t)"
        by (simp add: asString_Some)
      with False have "t = []" by blast
      with Some show ?thesis by simp
    qed
    then show ?thesis using False by simp
  qed
qed

lemma attr_bad_iff:
  "(\<not> (\<exists>s. a = Some (VString s) \<and> s \<noteq> [])) =
     (a = None \<or> (\<exists>v. a = Some v \<and> (\<forall>s. v \<noteq> VString s)) \<or> a = Some (VString []))"
proof (cases a)
  case None
  then show ?thesis by simp
next
  case (Some v)
  then show ?thesis by (cases v) simp_all
qed

text \<open>
  C6: a required attribute that is absent or malformed is exactly what makes these
  functions return an error. Availability-domain processing returns an error if and only
  if some availability domain's \<^verbatim>\<open>name\<close> is missing, is no string or is the empty
  string; object-storage namespace processing likewise for \<^verbatim>\<open>namespace\<close>; bucket id
  generation returns an error if and only if \<^verbatim>\<open>name\<close> or \<^verbatim>\<open>namespace\<close> is no
  string (a missing attribute is no string).
\<close>

theorem required_attribute_errors:
  "((snd (snd (processAvailabilityDomains h g ads)) \<noteq> None) =
      (\<exists>ad\<in>set ads. sourceAttributes ad ''name'' = None
          \<or> (\<exists>v. sourceAttributes ad ''name'' = Some v \<and> (\<forall>s. v \<noteq> VString s))
          \<or> sourceAttributes ad ''name'' = Some (VString [])))
   \<and> ((snd (snd (processObjectStorageNamespace h g nss)) \<noteq> None) =
      (\<exists>ns\<in>set nss. sourceAttributes ns ''namespace'' = None
          \<or> (\<exists>v. sourceAttributes ns ''namespace'' = Some v \<and> (\<forall>s. v \<noteq> VString s))
          \<or> sourceAttributes ns ''namespace'' = Some (VString [])))
   \<and> ((snd (getObjectStorageBucketId h bucket) \<noteq> None) =
      ((\<forall>s. sourceAttributes bucket ''name'' \<noteq> Some (VString s))
          \<or> (\<forall>s. sourceAttributes bucket ''namespace'' \<noteq> Some (VString s))))"
proof (intro conjI)
  show "(snd (snd (processAvailabilityDomains h g ads)) \<noteq> None) =
      (\<exists>ad\<in>set ads. sourceAttributes ad ''name'' = None
          \<or> (\<exists>v. sourceAttributes ad ''name'' = Some v \<and> (\<forall>s. v \<noteq> VString s))
          \<or> sourceAttributes ad ''name'' = Some (VString []))"
    unfolding processAvailabilityDomains_def ad_loop_err namedAd_def
    by (simp only: attr_bad_iff [symmetric]) blast
  show "(snd (snd (processObjectStorageNamespace h g nss)) \<noteq> None) =
      (\<exists>ns\<in>set nss. sourceAttributes ns ''namespace'' = None
          \<or> (\<exists>v. sourceAttributes ns ''namespace'' = Some v \<and> (\<forall>s. v \<noteq> VString s))
          \<or> sourceAttributes ns ''namespace'' = Some (VString []))"
    unfolding ns_err
    by (simp only: attr_bad_iff [symmetric]) blast
  show "(snd (getObjectStorageBucketId h bucket) \<noteq> None) =
      ((\<forall>s. sourceAttributes bucket ''name'' \<noteq> Some (VString s))
          \<or> (\<forall>s. sourceAttributes bucket ''namespace'' \<noteq> Some (VString s)))"
    by (auto simp: getObjectStorageBucketId_def asString_def split: option.splits val.splits)
qed

theorem required_attribute_errors_witness:
  "snd (snd (processAvailabilityDomains specHelpers noGlobals [exampleAd ''ad1'' []])) \<noteq> None
   \<and> snd (snd (processAvailabilityDomains specHelpers noGlobals exampleAds)) = None
   \<and> snd (getObjectStorageBucketId specHelpers (exampleAd ''ad1'' ''AD-0'')) \<noteq> None"
  using required_attribute_errors [of specHelpers noGlobals "[exampleAd ''ad1'' []]" "[]" "exampleAd ''ad1'' ''AD-0''"]
    required_attribute_errors [of specHelpers noGlobals exampleAds "[]" "exampleAd ''ad1'' ''AD-0''"]
  by (simp add: exampleAds_def exampleAd_def)

text \<open>
  C4: when every availability domain of the list has a non-empty string name, the hook
  returns without error and, for the availability domain at 0-based position \<open>i\<close>: its
  \<^verbatim>\<open>index\<close> attribute is \<open>i + 1\<close>; the Reference Map maps its name to the
  data-source expression built from an availability domain of the list that carries that
  name; and its rendered data-source block is the header, the compartment line and
  \<^verbatim>\<open>ad_number = "<i+1>"\<close>. The witness is the scenario of the spec: the availability
  domain named \<^verbatim>\<open>AD-2\<close> at index 2 renders \<^verbatim>\<open>ad_number = "3"\<close> and has a Reference
  Map entry.
\<close>

theorem availability_domain_index_and_reference:
  assumes "\<forall>ad\<in>set ads. \<exists>s. sourceAttributes ad ''name'' = Some (VString s) \<and> s \<noteq> []"
  shows "\<exists>g' ads'. processAvailabilityDomains h g ads = (g', ads', None) \<and> length ads' = length ads \<and>
     (\<forall>i<length ads.
        sourceAttributes (ads' ! i) ''index'' = Some (VInt (int i + 1)) \<and>
        (\<exists>s j. sourceAttributes (ads ! i) ''name'' = Some (VString s) \<and> j < length ads \<and>
            sourceAttributes (ads ! j) ''name'' = Some (VString s) \<and>
            referenceMap g' s =
              Some (getDataSourceHclString h (getTerraformReference h (ads' ! j)) ''name'')) \<and>
        getAvailabilityDomainHCLDatasource h builder (ads' ! i) varMap =
          Returns (builder @ ''data '' @ terraformClass (ads ! i) @ '' '' @ terraformName (ads ! i)
                     @ '' {'' @ [newline] @ ''compartment_id = ''
                     @ (case varMap (compartmentId (ads ! i)) of None \<Rightarrow> [] | Some v \<Rightarrow> v)
                     @ [newline] @ ''ad_number = '' @ [dquote] @ itoa (int i + 1) @ [dquote]
                     @ [newline] @ ''}'' @ [newline], None))"
proof -
  obtain g' ads' err where run: "processAvailabilityDomains_loop h 0 g ads = (g', ads', err)"
    by (metis prod_cases3)
  from assms have "snd (snd (processAvailabilityDomains_loop h 0 g ads)) = None"
    unfolding ad_loop_err namedAd_def .
  with run have err: "err = None" by simp
  have len: "length ads' = length ads" using ad_loop_length[OF run] .
  have "sourceAttributes (ads' ! i) ''index'' = Some (VInt (int i + 1)) \<and>
        (\<exists>s j. sourceAttributes (ads ! i) ''name'' = Some (VString s) \<and> j < length ads \<and>
            sourceAttributes (ads ! j) ''name'' = Some (VString s) \<and>
            referenceMap g' s =
              Some (getDataSourceHclString h (getTerraformReference h (ads' ! j)) ''name'')) \<and>
        getAvailabilityDomainHCLDatasource h builder (ads' ! i) varMap =
          Returns (builder @ ''data '' @ terraformClass (ads ! i) @ '' '' @ terraformName (ads ! i)
                     @ '' {'' @ [newline] @ ''compartment_id = ''
                     @ (case varMap (compartmentId (ads ! i)) of None \<Rightarrow> [] | Some v \<Rightarrow> v)
                     @ [newline] @ ''ad_number = '' @ [dquote] @ itoa (int i + 1) @ [dquote]
                     @ [newline] @ ''}'' @ [newline], None)" if i: "i < length ads" for i
  proof -
    have eq: "ads' ! i = setAttr (ads ! i) ''index'' (VInt (int i + 1))"
      using ad_loop_index[OF run[unfolded err] i] by simp
    from assms i obtain s where s: "sourceAttributes (ads ! i) ''name'' = Some (VString s)"
      by (meson nth_mem)
    from ad_loop_registers[OF run[unfolded err] i s] obtain j where
      "j < length ads" "sourceAttributes (ads ! j) ''name'' = Some (VString s)"
      "referenceMap g' s = Some (getDataSourceHclString h (getTerraformReference h (ads' ! j)) ''name'')"
      by blast
    with s have 2: "\<exists>s j. sourceAttributes (ads ! i) ''name'' = Some (VString s) \<and> j < length ads \<and>
            sourceAttributes (ads ! j) ''name'' = Some (VString s) \<and>
            referenceMap g' s =
              Some (getDataSourceHclString h (getTerraformReference h (ads' ! j)) ''name'')"
      by blast
    show ?thesis using 2
      by (simp add: eq getAvailabilityDomainHCLDatasource_def)
  qed
  then show ?thesis using run err len
    by (simp add: processAvailabilityDomains_def)
qed

theorem availability_domain_index_and_reference_witness:
  "\<exists>g' ads'. processAvailabilityDomains specHelpers noGlobals exampleAds = (g', ads', None) \<and>
     sourceAttributes (ads' ! 2) ''index'' = Some (VInt 3) \<and>
     referenceMap g' ''AD-2'' = Some ''data.oci_identity_availability_domain.ad3.name'' \<and>
     (\<exists>pre post. getAvailabilityDomainHCLDatasource specHelpers [] (ads' ! 2) Map.empty =
        Returns (pre @ ''ad_number = '' @ [dquote] @ ''3'' @ [dquote] @ post, None))"
proof -
  have named: "\<forall>ad\<in>set exampleAds. \<exists>s. sourceAttributes ad ''name'' = Some (VString s) \<and> s \<noteq> []"
    by (simp add: exampleAds_def exampleAd_def)
  from availability_domain_index_and_reference[OF named, of specHelpers noGlobals "[]" Map.empty]
  obtain g' ads' where run: "processAvailabilityDomains specHelpers noGlobals exampleAds = (g', ads', None)"
    and all: "\<forall>i<length exampleAds.
        sourceAttributes (ads' ! i) ''index'' = Some (VInt (int i + 1)) \<and>
        (\<exists>s j. sourceAttributes (exampleAds ! i) ''name'' = Some (VString s) \<and> j < length exampleAds \<and>
            sourceAttributes (exampleAds ! j) ''name'' = Some (VString s) \<and>
            referenceMap g' s =
              Some (getDataSourceHclString specHelpers (getTerraformReference specHelpers (ads' ! j)) ''name'')) \<and>
        getAvailabilityDomainHCLDatasource specHelpers [] (ads' ! i) Map.empty =
          Returns ([] @ ''data '' @ terraformClass (exampleAds ! i) @ '' '' @ terraformName (exampleAds ! i)
                     @ '' {'' @ [newline] @ ''compartment_id = ''
                     @ (case Map.empty (compartmentId (exampleAds ! i)) of None \<Rightarrow> [] | Some v \<Rightarrow> v)
                     @ [newline] @ ''ad_number = '' @ [dquote] @ itoa (int i + 1) @ [dquote]
                     @ [newline] @ ''}'' @ [newline], None)"
    by blast
  have two: "(2::nat) < length exampleAds" by (simp add: exampleAds_def)
  note at2 = all[rule_format, OF two]
  from at2 have idx: "sourceAttributes (ads' ! 2) ''index'' = Some (VInt 3)"
    by simp
  have ex2: "exampleAds ! 2 = exampleAd ''ad3'' ''AD-2''"
    by (simp add: exampleAds_def)
  have it: "itoa (int 2 + 1) = ''3''"
    by (simp add: itoa_def digits.simps)
  from at2 have render: "getAvailabilityDomainHCLDatasource specHelpers [] (ads' ! 2) Map.empty =
      Returns (''data oci_identity_availability_domain ad3 {'' @ [newline] @ ''compartment_id = ''
                 @ [newline] @ ''ad_number = '' @ [dquote] @ ''3'' @ [dquote] @ [newline] @ ''}'' @ [newline], None)"
    unfolding ex2 it by (simp add: exampleAd_def)
  have reg: "referenceMap g' ''AD-2'' = Some ''data.oci_identity_availability_domain.ad3.name''"
    using run
    by (auto simp: processAvailabilityDomains_def exampleAds_def exampleAd_def specHelpers_def
          noGlobals_def asString_def Let_def setAttr_def split: prod.splits)
  have "\<exists>pre post. getAvailabilityDomainHCLDatasource specHelpers [] (ads' ! 2) Map.empty =
        Returns (pre @ ''ad_number = '' @ [dquote] @ ''3'' @ [dquote] @ post, None)"
    unfolding render
    by (intro exI[of _ "''data oci_identity_availability_domain ad3 {'' @ [newline] @ ''compartment_id = '' @ [newline]"]
          exI[of _ "[newline] @ ''}'' @ [newline]"]) simp
  with run idx reg show ?thesis by blast
qed

subsection \<open>Instances\<close>

lemma hasInstancePoolTag_iff:
  "hasInstancePoolTag i =
     (\<exists>m v. sourceAttributes i ''freeform_tags'' = Some (VMap m) \<and> m ''oci:compute:instancepool'' = Some v)"
  by (auto simp: hasInstancePoolTag_def split: option.splits val.splits)

lemma firstSourceDetails_Some:
  "firstSourceDetails i = Some (sd, others) \<longleftrightarrow>
     sourceAttributes i ''source_details'' = Some (VList (VMap sd # others))"
  by (auto simp: firstSourceDetails_def split: option.splits val.splits list.splits)

lemma workaround_verdict: "snd (bootVolumeSizeWorkaround sd) \<noteq> Skipped"
  by (simp add: bootVolumeSizeWorkaround_def split: option.splits val.splits)

lemma processInstance_tagged:
  "hasInstancePoolTag i \<Longrightarrow> processInstance h g i = (g, i, Skipped)"
  by (simp add: processInstance_def)

lemma processInstance_plain:
  "\<not> hasInstancePoolTag i \<Longrightarrow> firstSourceDetails i = None \<Longrightarrow>
     processInstance h g i = (registerBootVolume h g i, i, Kept)"
  by (simp add: processInstance_def)

lemma processInstance_detailed:
  "\<not> hasInstancePoolTag i \<Longrightarrow> firstSourceDetails i = Some (sd, others) \<Longrightarrow>
     processInstance h g i =
       (registerImage h (registerBootVolume h g i) i,
        setAttr i ''source_details'' (VList (VMap (fst (bootVolumeSizeWorkaround (setSourceId i sd))) # others)),
        snd (bootVolumeSizeWorkaround (setSourceId i sd)))"
  by (simp add: processInstance_def split: prod.splits)

lemma processInstance_skipped:
  "(snd (snd (processInstance h g i)) = Skipped) = hasInstancePoolTag i"
proof (cases "hasInstancePoolTag i")
  case True
  then show ?thesis by (simp add: processInstance_tagged)
next
  case False
  show ?thesis
  proof (cases "firstSourceDetails i")
    case None
    with False show ?thesis by (simp add: processInstance_plain)
  next
    case (Some p)
    then obtain sd others where "firstSourceDetails i = Some (sd, others)" by (cases p) simp
    with False show ?thesis by (simp add: processInstance_detailed workaround_verdict)
  qed
qed

text \<open>What the loop body leaves alone: every field but the attribute \<open>source_details\<close>.\<close>

lemma processInstance_frame:
  assumes "processInstance h g i = (g', i', v)"
  shows "compartmentId i' = compartmentId i \<and> id_field i' = id_field i \<and>
         terraformClass i' = terraformClass i \<and> terraformName i' = terraformName i \<and>
         terraformReferenceIdString i' = terraformReferenceIdString i \<and>
         importId i' = importId i \<and> omitFromExport i' = omitFromExport i \<and>
         parent i' = parent i \<and>
         (\<forall>k. k \<noteq> ''source_details'' \<longrightarrow> sourceAttributes i' k = sourceAttributes i k)"
proof (cases "hasInstancePoolTag i")
  case True
  with assms show ?thesis by (simp add: processInstance_tagged)
next
  case False
  show ?thesis
  proof (cases "firstSourceDetails i")
    case None
    with False assms show ?thesis by (simp add: processInstance_plain)
  next
    case (Some p)
    then obtain sd others where "firstSourceDetails i = Some (sd, others)" by (cases p) simp
    with False assms have "i' = setAttr i ''source_details''
        (VList (VMap (fst (bootVolumeSizeWorkaround (setSourceId i sd))) # others))"
      by (simp add: processInstance_detailed)
    then show ?thesis by simp
  qed
qed

lemma loop_results:
  "processInstances_loop h g rs = (g', rs', results, Returns None) \<Longrightarrow>
     list_all2 (\<lambda>i r. \<exists>g0 g1. processInstance h g0 i = (g1, r, Kept))
       (filter (\<lambda>i. \<not> hasInstancePoolTag i) rs) results"
proof (induction rs arbitrary: g g' rs' results)
  case Nil
  then show ?case by simp
next
  case (Cons i rest)
  obtain g1 i' v where step: "processInstance h g i = (g1, i', v)"
    by (metis prod_cases3)
  obtain g2 rest' res2 e2 where rec: "processInstances_loop h g1 rest = (g2, rest', res2, e2)"
    by (metis prod_cases4)
  show ?case
  proof (cases v)
    case Skipped
    with step have tag: "hasInstancePoolTag i"
      using processInstance_skipped[of h g i] by simp
    from Cons.prems step rec Skipped have "e2 = Returns None" "results = res2" by simp_all
    with Cons.IH[of g1 g2 rest' res2] rec tag show ?thesis by simp
  next
    case Kept
    with step have tag: "\<not> hasInstancePoolTag i"
      using processInstance_skipped[of h g i] by simp
    from Cons.prems step rec Kept have "e2 = Returns None" "results = i' # res2" by simp_all
    with Cons.IH[of g1 g2 rest' res2] rec tag step Kept show ?thesis by auto
  next
    case (Failed e)
    with Cons.prems step show ?thesis by simp
  next
    case Panicked
    with Cons.prems step show ?thesis by simp
  qed
qed

lemma processInstances_success:
  "processInstances h g rs = (g', Returns (results, None)) \<Longrightarrow>
     \<exists>rs'. processInstances_loop h g rs = (g', rs', results, Returns None)"
  by (auto simp: processInstances_def split: prod.splits outcome.splits option.splits)

lemma ParseInt_47: "ParseInt ''47'' = Some 47"
  by (simp add: ParseInt_def digitValue_def)

lemma ParseInt_50: "ParseInt ''50'' = Some 50"
  by (simp add: ParseInt_def digitValue_def)

lemma ParseInt_bad: "ParseInt ''47GB'' = None"
  by (simp add: ParseInt_def digitValue_def)

lemma setSourceId_other: "k \<noteq> ''source_id'' \<Longrightarrow> setSourceId i sd k = sd k"
  by (simp add: setSourceId_def split: option.splits)

lemma firstSourceDetails_setAttr [simp]:
  "firstSourceDetails (setAttr i ''source_details'' (VList (VMap sd # others))) = Some (sd, others)"
  by (simp add: firstSourceDetails_def)

lemma hasInstancePoolTag_setAttr [simp]:
  "hasInstancePoolTag (setAttr i ''source_details'' v) = hasInstancePoolTag i"
  by (simp add: hasInstancePoolTag_def)

lemma kept_cases:
  assumes "processInstance h g0 i = (g1, r, Kept)"
  shows "\<not> hasInstancePoolTag i \<and>
         ((firstSourceDetails i = None \<and> r = i) \<or>
          (\<exists>sd others sd'. firstSourceDetails i = Some (sd, others) \<and>
             bootVolumeSizeWorkaround (setSourceId i sd) = (sd', Kept) \<and>
             r = setAttr i ''source_details'' (VList (VMap sd' # others))))"
proof -
  have tag: "\<not> hasInstancePoolTag i"
    using assms processInstance_skipped[of h g0 i] by simp
  show ?thesis
  proof (cases "firstSourceDetails i")
    case None
    with tag assms show ?thesis by (simp add: processInstance_plain)
  next
    case (Some p)
    then obtain sd others where f: "firstSourceDetails i = Some (sd, others)" by (cases p) simp
    from processInstance_detailed[OF tag f, of h g0] assms
    have "r = setAttr i ''source_details''
             (VList (VMap (fst (bootVolumeSizeWorkaround (setSourceId i sd))) # others))"
      and "snd (bootVolumeSizeWorkaround (setSourceId i sd)) = Kept"
      by simp_all
    then show ?thesis using tag f
      by (metis prod.collapse)
  qed
qed

lemma workaround_kept_size:
  assumes "bootVolumeSizeWorkaround sd = (sd', Kept)" and "sd ''boot_volume_size_in_gbs'' = Some (VString s)"
  shows "\<exists>n. ParseInt s = Some n \<and>
           sd' ''boot_volume_size_in_gbs'' = (if n < 50 then None else Some (VString s))"
  using assms
  by (auto simp: bootVolumeSizeWorkaround_def split: option.splits if_splits)

lemma workaround_failed:
  assumes "sd ''boot_volume_size_in_gbs'' = Some (VString s)" and "ParseInt s = None"
  shows "bootVolumeSizeWorkaround sd = (sd, Failed (ErrNumError s))"
  using assms by (simp add: bootVolumeSizeWorkaround_def)

lemma workaround_idem:
  assumes "bootVolumeSizeWorkaround sd = (sd', Kept)"
  shows "bootVolumeSizeWorkaround sd' = (sd', Kept)"
  using assms
  by (auto simp: bootVolumeSizeWorkaround_def split: option.splits val.splits if_splits)

lemma workaround_other:
  assumes "bootVolumeSizeWorkaround sd = (sd', v)" and "k \<noteq> ''boot_volume_size_in_gbs''"
  shows "sd' k = sd k"
  using assms
  by (auto simp: bootVolumeSizeWorkaround_def split: option.splits val.splits if_splits)

lemma kept_size:
  assumes "processInstance h g0 i = (g1, r, Kept)"
    and "firstSourceDetails i = Some (sd, others)"
    and "sd ''boot_volume_size_in_gbs'' = Some (VString s)"
  shows "\<exists>n sd'. ParseInt s = Some n \<and> firstSourceDetails r = Some (sd', others) \<and>
           sd' ''boot_volume_size_in_gbs'' = (if n < 50 then None else Some (VString s))"
proof -
  from kept_cases[OF assms(1)] assms(2) obtain sd' where
    w: "bootVolumeSizeWorkaround (setSourceId i sd) = (sd', Kept)"
    and r: "r = setAttr i ''source_details'' (VList (VMap sd' # others))"
    by auto
  have "setSourceId i sd ''boot_volume_size_in_gbs'' = Some (VString s)"
    using assms(3) by (simp add: setSourceId_other)
  from workaround_kept_size[OF w this] r show ?thesis
    by auto
qed

lemma setAttr_setAttr [simp]: "setAttr (setAttr r k v) k w = setAttr r k w"
  by (simp add: setAttr_def)

lemma setSourceId_setAttr [simp]:
  "setSourceId (setAttr i ''source_details'' v) sd = setSourceId i sd"
  by (simp add: setSourceId_def)

lemma setSourceId_idem:
  assumes "sd' ''source_id'' = setSourceId i sd ''source_id''"
  shows "setSourceId i sd' = sd'"
proof (cases "asString (sourceAttributes i ''image'')")
  case None
  then show ?thesis by (simp add: setSourceId_def)
next
  case (Some im)
  with assms have "sd' ''source_id'' = Some (VString im)" by (simp add: setSourceId_def)
  then have "sd'(''source_id'' \<mapsto> VString im) = sd'" by (rule map_upd_triv)
  with Some show ?thesis by (simp add: setSourceId_def)
qed

lemma kept_idem:
  assumes "processInstance h g0 i = (g1, r, Kept)"
  shows "snd (processInstance h g2 r) = (r, Kept)"
proof -
  from kept_cases[OF assms] have tag: "\<not> hasInstancePoolTag i" by simp
  from kept_cases[OF assms] consider
      (plain) "firstSourceDetails i = None" "r = i"
    | (detailed) sd others sd' where "firstSourceDetails i = Some (sd, others)"
        "bootVolumeSizeWorkaround (setSourceId i sd) = (sd', Kept)"
        "r = setAttr i ''source_details'' (VList (VMap sd' # others))"
    by (elim conjE disjE exE) iprover+
  then show ?thesis
  proof cases
    case plain
    with tag show ?thesis by (simp add: processInstance_plain)
  next
    case detailed
    have tagr: "\<not> hasInstancePoolTag r" using tag detailed(3) by simp
    have fr: "firstSourceDetails r = Some (sd', others)" using detailed(3) by simp
    have "sd' ''source_id'' = setSourceId i sd ''source_id''"
      using workaround_other[OF detailed(2), of "''source_id''"] by simp
    then have "setSourceId i sd' = sd'" by (rule setSourceId_idem)
    then have s: "setSourceId r sd' = sd'" using detailed(3) by simp
    have w: "bootVolumeSizeWorkaround sd' = (sd', Kept)"
      using workaround_idem[OF detailed(2)] .
    show ?thesis
      using processInstance_detailed[OF tagr fr, of h g2] s w detailed(3) by simp
  qed
qed

lemma loop_all_kept:
  "\<forall>r\<in>set rs. \<forall>g. snd (processInstance h g r) = (r, Kept) \<Longrightarrow>
     snd (processInstances_loop h g rs) = (rs, rs, Returns None)"
proof (induction rs arbitrary: g)
  case Nil
  then show ?case by simp
next
  case (Cons r rest)
  obtain g1 where step: "processInstance h g r = (g1, r, Kept)"
    using Cons.prems by (metis list.set_intros(1) prod.collapse)
  have "snd (processInstances_loop h g1 rest) = (rest, rest, Returns None)"
    using Cons.IH Cons.prems by simp
  then show ?case using step
    by (auto split: prod.splits)
qed

lemma processInstances_idem:
  assumes "processInstances h g rs = (g', Returns (results, None))"
  shows "snd (processInstances h g2 results) = Returns (results, None)"
proof -
  from processInstances_success[OF assms] obtain rs' where
    run: "processInstances_loop h g rs = (g', rs', results, Returns None)" by blast
  have "\<forall>r\<in>set results. \<forall>g. snd (processInstance h g r) = (r, Kept)"
  proof
    fix r assume "r \<in> set results"
    with loop_results[OF run] obtain i g0 g1 where "processInstance h g0 i = (g1, r, Kept)"
      by (auto simp: list_all2_conv_all_nth in_set_conv_nth)
    then show "\<forall>g. snd (processInstance h g r) = (r, Kept)"
      using kept_idem by blast
  qed
  from loop_all_kept[OF this, of g2] show ?thesis
    by (auto simp: processInstances_def split: prod.splits)
qed

text \<open>An instance whose pass fails or panics makes the hook fail or panic.\<close>

lemma loop_not_completed:
  assumes "i \<in> set rs" and "\<forall>g. snd (snd (processInstance h g i)) \<noteq> Skipped \<and> snd (snd (processInstance h g i)) \<noteq> Kept"
  shows "snd (snd (snd (processInstances_loop h g rs))) \<noteq> Returns None"
  using assms(1)
proof (induction rs arbitrary: g)
  case Nil
  then show ?case by simp
next
  case (Cons r rest)
  obtain g1 r' v where step: "processInstance h g r = (g1, r', v)" by (metis prod_cases3)
  show ?case
  proof (cases v)
    case (Failed e)
    with step show ?thesis by simp
  next
    case Panicked
    with step show ?thesis by simp
  next
    case Skipped
    with step assms(2) have "i \<noteq> r" by (metis snd_conv)
    with Cons.prems have "i \<in> set rest" by simp
    from Cons.IH[OF this, of g1] step Skipped show ?thesis
      by (auto split: prod.splits)
  next
    case Kept
    with step assms(2) have "i \<noteq> r" by (metis snd_conv)
    with Cons.prems have "i \<in> set rest" by simp
    from Cons.IH[OF this, of g1] step Kept show ?thesis
      by (auto split: prod.splits)
  qed
qed

lemma processInstances_outcome:
  "snd (processInstances h g rs) =
     (case snd (snd (snd (processInstances_loop h g rs))) of
        Returns None \<Rightarrow> Returns (fst (snd (snd (processInstances_loop h g rs))), None)
      | Returns (Some e) \<Rightarrow> Returns (fst (snd (processInstances_loop h g rs)), Some e)
      | Panics \<Rightarrow> Panics)"
  by (auto simp: processInstances_def split: prod.splits outcome.splits option.splits)

text \<open>
  C8: when instance post-processing returns without error, its results are, in order,
  exactly the instances that do not carry a \<^verbatim>\<open>freeform_tags\<close> map with the key
  \<^verbatim>\<open>oci:compute:instancepool\<close>: every instance with the tag is left out and every
  other instance is there, with its id, class, name and every attribute but
  \<^verbatim>\<open>source_details\<close> as they were.
\<close>

theorem instance_pool_instances_excluded:
  assumes "processInstances h g resources = (g', Returns (results, None))"
  shows "list_all2
           (\<lambda>instance result.
              id_field result = id_field instance \<and>
              terraformClass result = terraformClass instance \<and>
              terraformName result = terraformName instance \<and>
              (\<forall>k. k \<noteq> ''source_details'' \<longrightarrow>
                 sourceAttributes result k = sourceAttributes instance k))
           (filter (\<lambda>instance.
                      \<not> (\<exists>m v. sourceAttributes instance ''freeform_tags'' = Some (VMap m) \<and>
                              m ''oci:compute:instancepool'' = Some v))
              resources)
           results"
proof -
  from processInstances_success[OF assms] obtain rs' where
    run: "processInstances_loop h g resources = (g', rs', results, Returns None)" by blast
  have "list_all2 (\<lambda>i r. \<exists>g0 g1. processInstance h g0 i = (g1, r, Kept))
          (filter (\<lambda>i. \<not> hasInstancePoolTag i) resources) results"
    using loop_results[OF run] .
  then have "list_all2
           (\<lambda>instance result.
              id_field result = id_field instance \<and>
              terraformClass result = terraformClass instance \<and>
              terraformName result = terraformName instance \<and>
              (\<forall>k. k \<noteq> ''source_details'' \<longrightarrow>
                 sourceAttributes result k = sourceAttributes instance k))
          (filter (\<lambda>i. \<not> hasInstancePoolTag i) resources) results"
  proof (rule list_all2_mono)
    fix i r assume "\<exists>g0 g1. processInstance h g0 i = (g1, r, Kept)"
    then obtain g0 g1 where "processInstance h g0 i = (g1, r, Kept)" by blast
    from processInstance_frame[OF this]
    show "id_field r = id_field i \<and> terraformClass r = terraformClass i \<and>
          terraformName r = terraformName i \<and>
          (\<forall>k. k \<noteq> ''source_details'' \<longrightarrow> sourceAttributes r k = sourceAttributes i k)"
      by simp
  qed
  then show ?thesis by (simp only: hasInstancePoolTag_iff)
qed

lemma example_pool_run:
  "snd (processInstances specHelpers noGlobals [pooledInstance, plainInstance])
     = Returns ([plainInstance], None)"
  by (simp add: processInstances_def processInstance_def hasInstancePoolTag_def
        firstSourceDetails_def pooledInstance_def plainInstance_def exampleInstance_def)

theorem instance_pool_instances_excluded_witness:
  "\<exists>g'. processInstances specHelpers noGlobals [pooledInstance, plainInstance]
           = (g', Returns ([plainInstance], None)) \<and>
     list_all2
           (\<lambda>instance result.
              id_field result = id_field instance \<and>
              terraformClass result = terraformClass instance \<and>
              terraformName result = terraformName instance \<and>
              (\<forall>k. k \<noteq> ''source_details'' \<longrightarrow>
                 sourceAttributes result k = sourceAttributes instance k))
           [plainInstance] [plainInstance] \<and>
     filter (\<lambda>instance.
                      \<not> (\<exists>m v. sourceAttributes instance ''freeform_tags'' = Some (VMap m) \<and>
                              m ''oci:compute:instancepool'' = Some v))
        [pooledInstance, plainInstance] = [plainInstance]"
proof -
  obtain g' where run: "processInstances specHelpers noGlobals [pooledInstance, plainInstance]
           = (g', Returns ([plainInstance], None))"
    using example_pool_run by (metis prod.collapse)
  have f: "filter (\<lambda>instance.
                      \<not> (\<exists>m v. sourceAttributes instance ''freeform_tags'' = Some (VMap m) \<and>
                              m ''oci:compute:instancepool'' = Some v))
        [pooledInstance, plainInstance] = [plainInstance]"
    by (simp add: pooledInstance_def plainInstance_def exampleInstance_def)
  from instance_pool_instances_excluded[OF run] f run show ?thesis
    by (simp only: exI[of _ g'])
qed

text \<open>
  C10: for an instance that is not left out and whose first \<^verbatim>\<open>source_details\<close> entry
  holds a string under \<^verbatim>\<open>boot_volume_size_in_gbs\<close>: when the hook returns without
  error the string parses as an integer, the entry is gone from the result when the
  integer is below 50 and is the same string otherwise. A string that does not parse
  makes the hook on that instance alone return the parse error, and makes the hook on any
  list holding the instance end with an error or a panic, never with results.
\<close>

theorem boot_volume_size_workaround:
  "(processInstances h g resources = (g', Returns (results, None)) \<longrightarrow>
      list_all2
        (\<lambda>instance result.
           \<forall>sd others s.
             sourceAttributes instance ''source_details'' = Some (VList (VMap sd # others)) \<longrightarrow>
             sd ''boot_volume_size_in_gbs'' = Some (VString s) \<longrightarrow>
             (\<exists>n sd'. ParseInt s = Some n \<and>
                sourceAttributes result ''source_details'' = Some (VList (VMap sd' # others)) \<and>
                sd' ''boot_volume_size_in_gbs'' = (if n < 50 then None else Some (VString s))))
        (filter (\<lambda>instance. \<not> hasInstancePoolTag instance) resources) results)
   \<and> (\<not> hasInstancePoolTag instance \<and>
        sourceAttributes instance ''source_details'' = Some (VList (VMap sd # others)) \<and>
        sd ''boot_volume_size_in_gbs'' = Some (VString s) \<and> ParseInt s = None \<longrightarrow>
        (\<exists>g2 rs. processInstances h g [instance] = (g2, Returns (rs, Some (ErrNumError s)))) \<and>
        (instance \<in> set resources \<longrightarrow>
           (\<exists>rs e. snd (processInstances h g resources) = Returns (rs, Some e)) \<or>
           snd (processInstances h g resources) = Panics))"
proof (intro conjI impI)
  assume ok: "processInstances h g resources = (g', Returns (results, None))"
  from processInstances_success[OF ok] obtain rs' where
    run: "processInstances_loop h g resources = (g', rs', results, Returns None)" by blast
  show "list_all2
        (\<lambda>instance result.
           \<forall>sd others s.
             sourceAttributes instance ''source_details'' = Some (VList (VMap sd # others)) \<longrightarrow>
             sd ''boot_volume_size_in_gbs'' = Some (VString s) \<longrightarrow>
             (\<exists>n sd'. ParseInt s = Some n \<and>
                sourceAttributes result ''source_details'' = Some (VList (VMap sd' # others)) \<and>
                sd' ''boot_volume_size_in_gbs'' = (if n < 50 then None else Some (VString s))))
        (filter (\<lambda>instance. \<not> hasInstancePoolTag instance) resources) results"
    using loop_results[OF run]
  proof (rule list_all2_mono)
    fix i r assume "\<exists>g0 g1. processInstance h g0 i = (g1, r, Kept)"
    then obtain g0 g1 where k: "processInstance h g0 i = (g1, r, Kept)" by blast
    show "\<forall>sd others s.
             sourceAttributes i ''source_details'' = Some (VList (VMap sd # others)) \<longrightarrow>
             sd ''boot_volume_size_in_gbs'' = Some (VString s) \<longrightarrow>
             (\<exists>n sd'. ParseInt s = Some n \<and>
                sourceAttributes r ''source_details'' = Some (VList (VMap sd' # others)) \<and>
                sd' ''boot_volume_size_in_gbs'' = (if n < 50 then None else Some (VString s)))"
      using kept_size[OF k] by (simp only: firstSourceDetails_Some) blast
  qed
next
  assume a: "\<not> hasInstancePoolTag instance \<and>
        sourceAttributes instance ''source_details'' = Some (VList (VMap sd # others)) \<and>
        sd ''boot_volume_size_in_gbs'' = Some (VString s) \<and> ParseInt s = None"
  then have tag: "\<not> hasInstancePoolTag instance"
    and f: "firstSourceDetails instance = Some (sd, others)"
    and sz: "setSourceId instance sd ''boot_volume_size_in_gbs'' = Some (VString s)"
    and p: "ParseInt s = None"
    by (simp_all add: firstSourceDetails_Some setSourceId_other)
  have v: "snd (snd (processInstance h g0 instance)) = Failed (ErrNumError s)" for g0
    using processInstance_detailed[OF tag f, of h g0] workaround_failed[of "setSourceId instance sd" s, OF sz p] by simp
  show "\<exists>g2 rs. processInstances h g [instance] = (g2, Returns (rs, Some (ErrNumError s)))"
    using v[of g]
    by (auto simp: processInstances_def split: prod.splits verdict.splits)
  {
    assume mem: "instance \<in> set resources"
    have "snd (snd (snd (processInstances_loop h g resources))) \<noteq> Returns None"
      using loop_not_completed[OF mem, of h g] v by simp
    then show "(\<exists>rs e. snd (processInstances h g resources) = Returns (rs, Some e)) \<or>
           snd (processInstances h g resources) = Panics"
      unfolding processInstances_outcome
      by (auto split: outcome.splits option.splits)
  }
qed

lemma example_sized_run:
  "\<exists>g' r1 r2. processInstances specHelpers noGlobals [sizedInstance ''47'', sizedInstance ''50'']
      = (g', Returns ([r1, r2], None))"
  by (simp add: processInstances_def processInstance_def hasInstancePoolTag_def
        firstSourceDetails_def sizedInstance_def exampleInstance_def bootVolumeSizeWorkaround_def
        setSourceId_def asString_def ParseInt_47 ParseInt_50)

theorem boot_volume_size_workaround_witness:
  "\<exists>g' r1 r2 sd1 sd2.
      processInstances specHelpers noGlobals [sizedInstance ''47'', sizedInstance ''50'']
        = (g', Returns ([r1, r2], None)) \<and>
      sourceAttributes r1 ''source_details'' = Some (VList [VMap sd1]) \<and>
      sd1 ''boot_volume_size_in_gbs'' = None \<and>
      sourceAttributes r2 ''source_details'' = Some (VList [VMap sd2]) \<and>
      sd2 ''boot_volume_size_in_gbs'' = Some (VString ''50'') \<and>
      (\<exists>g2 rs. processInstances specHelpers noGlobals [sizedInstance ''47GB'']
         = (g2, Returns (rs, Some (ErrNumError ''47GB''))))"
proof -
  from example_sized_run obtain g' r1 r2 where
    run: "processInstances specHelpers noGlobals [sizedInstance ''47'', sizedInstance ''50'']
      = (g', Returns ([r1, r2], None))" by blast
  have nt: "\<not> hasInstancePoolTag (sizedInstance x)" for x
    by (simp add: hasInstancePoolTag_def sizedInstance_def exampleInstance_def)
  have sd: "sourceAttributes (sizedInstance x) ''source_details''
              = Some (VList (VMap [''boot_volume_size_in_gbs'' \<mapsto> VString x] # []))" for x
    by (simp add: sizedInstance_def exampleInstance_def)
  note thm1 = boot_volume_size_workaround
      [of specHelpers noGlobals "[sizedInstance ''47'', sizedInstance ''50'']" g' "[r1, r2]"
          "sizedInstance ''47GB''" "[''boot_volume_size_in_gbs'' \<mapsto> VString ''47GB'']" "[]" "''47GB''"]
  from thm1 run nt have
    a1: "\<forall>sd others s.
             sourceAttributes (sizedInstance ''47'') ''source_details'' = Some (VList (VMap sd # others)) \<longrightarrow>
             sd ''boot_volume_size_in_gbs'' = Some (VString s) \<longrightarrow>
             (\<exists>n sd'. ParseInt s = Some n \<and>
                sourceAttributes r1 ''source_details'' = Some (VList (VMap sd' # others)) \<and>
                sd' ''boot_volume_size_in_gbs'' = (if n < 50 then None else Some (VString s)))"
    and a2: "\<forall>sd others s.
             sourceAttributes (sizedInstance ''50'') ''source_details'' = Some (VList (VMap sd # others)) \<longrightarrow>
             sd ''boot_volume_size_in_gbs'' = Some (VString s) \<longrightarrow>
             (\<exists>n sd'. ParseInt s = Some n \<and>
                sourceAttributes r2 ''source_details'' = Some (VList (VMap sd' # others)) \<and>
                sd' ''boot_volume_size_in_gbs'' = (if n < 50 then None else Some (VString s)))"
    by simp_all
  from a1[rule_format, OF sd, of "''47''"] obtain sd1 where
    r1: "sourceAttributes r1 ''source_details'' = Some (VList [VMap sd1])"
        "sd1 ''boot_volume_size_in_gbs'' = None"
    by (auto simp: ParseInt_47)
  from a2[rule_format, OF sd, of "''50''"] obtain sd2 where
    r2: "sourceAttributes r2 ''source_details'' = Some (VList [VMap sd2])"
        "sd2 ''boot_volume_size_in_gbs'' = Some (VString ''50'')"
    by (auto simp: ParseInt_50)
  from thm1 nt sd[of "''47GB''"] have
    e: "\<exists>g2 rs. processInstances specHelpers noGlobals [sizedInstance ''47GB'']
         = (g2, Returns (rs, Some (ErrNumError ''47GB'')))"
    by (simp add: ParseInt_bad)
  from run r1 r2 e show ?thesis by blast
qed

subsection \<open>Default resources and composite ids\<close>

lemma sel_setId [simp]:
  "sourceAttributes (setId r v) = sourceAttributes r"
  "compartmentId (setId r v) = compartmentId r"
  "id_field (setId r v) = v"
  "terraformClass (setId r v) = terraformClass r"
  "terraformName (setId r v) = terraformName r"
  "terraformReferenceIdString (setId r v) = terraformReferenceIdString r"
  "importId (setId r v) = importId r"
  "omitFromExport (setId r v) = omitFromExport r"
  "parent (setId r v) = parent r"
  by (simp_all add: setId_def)

lemma sel_setTerraformClass [simp]:
  "sourceAttributes (setTerraformClass r v) = sourceAttributes r"
  "compartmentId (setTerraformClass r v) = compartmentId r"
  "id_field (setTerraformClass r v) = id_field r"
  "terraformClass (setTerraformClass r v) = v"
  "terraformName (setTerraformClass r v) = terraformName r"
  "terraformReferenceIdString (setTerraformClass r v) = terraformReferenceIdString r"
  "importId (setTerraformClass r v) = importId r"
  "omitFromExport (setTerraformClass r v) = omitFromExport r"
  "parent (setTerraformClass r v) = parent r"
  by (simp_all add: setTerraformClass_def)

lemma sel_setTerraformReferenceIdString [simp]:
  "sourceAttributes (setTerraformReferenceIdString r v) = sourceAttributes r"
  "compartmentId (setTerraformReferenceIdString r v) = compartmentId r"
  "id_field (setTerraformReferenceIdString r v) = id_field r"
  "terraformClass (setTerraformReferenceIdString r v) = terraformClass r"
  "terraformName (setTerraformReferenceIdString r v) = terraformName r"
  "terraformReferenceIdString (setTerraformReferenceIdString r v) = v"
  "importId (setTerraformReferenceIdString r v) = importId r"
  "omitFromExport (setTerraformReferenceIdString r v) = omitFromExport r"
  "parent (setTerraformReferenceIdString r v) = parent r"
  by (simp_all add: setTerraformReferenceIdString_def)

lemma forEach_list_all2:
  assumes "\<forall>r\<in>set rs. \<exists>r'. body r = Returns r' \<and> R r r'"
  shows "\<exists>out. forEach body rs = Returns out \<and> list_all2 R rs out"
  using assms
proof (induction rs)
  case Nil
  then show ?case by simp
next
  case (Cons r rest)
  then obtain r' where r: "body r = Returns r'" "R r r'" by auto
  from Cons obtain out where "forEach body rest = Returns out" "list_all2 R rest out" by auto
  with r show ?case by simp
qed

lemma forEach_idem:
  assumes "\<And>r r'. body r = Returns r' \<Longrightarrow> body r' = Returns r'"
  shows "forEach body rs = Returns out \<Longrightarrow> forEach body out = Returns out"
proof (induction rs arbitrary: out)
  case Nil
  then show ?case by simp
next
  case (Cons r rest)
  from Cons.prems obtain r' rest' where
    r: "body r = Returns r'" and rest: "forEach body rest = Returns rest'" and out: "out = r' # rest'"
    by (auto split: outcome.splits)
  from assms[OF r] Cons.IH[OF rest] out show ?case by simp
qed

lemma returningNil_Returns:
  "returningNil x = Returns (out, e) \<longleftrightarrow> x = Returns out \<and> e = None"
  by (auto simp: returningNil_def split: outcome.splits)

lemma processDefaultResource_reclassified:
  assumes "parent r = Some p" and "sourceAttributes p key = Some (VString d)"
  shows "\<exists>r'. processDefaultResource h key cls r = Returns r' \<and> reclassifiedAsDefault h key cls r r'"
  using assms
  by (simp add: processDefaultResource_def reclassifiedAsDefault_def asString_def Let_def)

lemma default_hook:
  assumes "\<forall>r\<in>set rs. \<exists>p d. parent r = Some p \<and> sourceAttributes p key = Some (VString d)"
  shows "\<exists>out. returningNil (forEach (processDefaultResource h key cls) rs) = Returns (out, None) \<and>
           list_all2 (reclassifiedAsDefault h key cls) rs out"
proof -
  have "\<forall>r\<in>set rs. \<exists>r'. processDefaultResource h key cls r = Returns r' \<and>
          reclassifiedAsDefault h key cls r r'"
    using assms processDefaultResource_reclassified by blast
  from forEach_list_all2[OF this] show ?thesis
    by (auto simp: returningNil_def)
qed

text \<open>
  C2: when every resource of the list has a parent whose default id attribute is a
  string, each of the three hooks returns without error, and every resource is
  reclassified as \<open>reclassifiedAsDefault\<close> says: a resource whose id equals the parent's
  \<^verbatim>\<open>default_security_list_id\<close>, \<^verbatim>\<open>default_route_table_id\<close> or
  \<^verbatim>\<open>default_dhcp_options_id\<close> gets the \<^verbatim>\<open>default_*\<close> class, the attribute
  \<^verbatim>\<open>manage_default_resource_id\<close> equal to its id, and the reference string
  \<^verbatim>\<open><parent reference>.default_*_id\<close> if the parent is not omitted and its old
  reference string if it is; a resource with another id is unchanged.
\<close>

theorem default_resources_reclassified:
  "((\<forall>r\<in>set securityLists. \<exists>p d. parent r = Some p \<and>
        sourceAttributes p ''default_security_list_id'' = Some (VString d)) \<longrightarrow>
      (\<exists>out. processDefaultSecurityLists h securityLists = Returns (out, None) \<and>
         list_all2 (reclassifiedAsDefault h ''default_security_list_id''
                      ''oci_core_default_security_list'') securityLists out))
   \<and> ((\<forall>r\<in>set routeTables. \<exists>p d. parent r = Some p \<and>
        sourceAttributes p ''default_route_table_id'' = Some (VString d)) \<longrightarrow>
      (\<exists>out. processDefaultRouteTables h routeTables = Returns (out, None) \<and>
         list_all2 (reclassifiedAsDefault h ''default_route_table_id''
                      ''oci_core_default_route_table'') routeTables out))
   \<and> ((\<forall>r\<in>set dhcpOptions. \<exists>p d. parent r = Some p \<and>
        sourceAttributes p ''default_dhcp_options_id'' = Some (VString d)) \<longrightarrow>
      (\<exists>out. processDefaultDhcpOptions h dhcpOptions = Returns (out, None) \<and>
         list_all2 (reclassifiedAsDefault h ''default_dhcp_options_id''
                      ''oci_core_default_dhcp_options'') dhcpOptions out))"
  unfolding processDefaultSecurityLists_def processDefaultRouteTables_def
    processDefaultDhcpOptions_def
  using default_hook by blast

theorem default_resources_reclassified_witness:
  "\<exists>out1 out2 out3 out4 out5.
      processDefaultSecurityLists specHelpers
        [exampleSecurityList ''ocid1.securitylist.default'' ''sl1'' False,
         exampleSecurityList ''ocid1.securitylist.2'' ''sl2'' False] = Returns ([out1, out2], None) \<and>
      terraformClass out1 = ''oci_core_default_security_list'' \<and>
      sourceAttributes out1 ''manage_default_resource_id'' = Some (VString ''ocid1.securitylist.default'') \<and>
      terraformReferenceIdString out1 = ''oci_core_vcn.vcn1.default_security_list_id'' \<and>
      out2 = exampleSecurityList ''ocid1.securitylist.2'' ''sl2'' False \<and>
      processDefaultSecurityLists specHelpers
        [exampleSecurityList ''ocid1.securitylist.default'' ''sl1'' True] = Returns ([out3], None) \<and>
      terraformClass out3 = ''oci_core_default_security_list'' \<and>
      terraformReferenceIdString out3 = [] \<and>
      processDefaultRouteTables specHelpers [exampleRouteTable] = Returns ([out4], None) \<and>
      terraformClass out4 = ''oci_core_default_route_table'' \<and>
      sourceAttributes out4 ''manage_default_resource_id'' = Some (VString ''ocid1.routetable.default'') \<and>
      terraformReferenceIdString out4 = ''oci_core_vcn.vcn1.default_route_table_id'' \<and>
      processDefaultDhcpOptions specHelpers [exampleDhcpOptions] = Returns ([out5], None) \<and>
      terraformClass out5 = ''oci_core_default_dhcp_options'' \<and>
      sourceAttributes out5 ''manage_default_resource_id'' = Some (VString ''ocid1.dhcpoptions.default'') \<and>
      terraformReferenceIdString out5 = ''oci_core_vcn.vcn1.default_dhcp_options_id''"
proof -
  let ?a = "exampleSecurityList ''ocid1.securitylist.default'' ''sl1'' False"
  let ?b = "exampleSecurityList ''ocid1.securitylist.2'' ''sl2'' False"
  let ?c = "exampleSecurityList ''ocid1.securitylist.default'' ''sl1'' True"
  let ?R = "reclassifiedAsDefault specHelpers ''default_security_list_id'' ''oci_core_default_security_list''"
  let ?Rrt = "reclassifiedAsDefault specHelpers ''default_route_table_id'' ''oci_core_default_route_table''"
  let ?Rdhcp = "reclassifiedAsDefault specHelpers ''default_dhcp_options_id'' ''oci_core_default_dhcp_options''"
  have pre: "\<forall>r\<in>set xs. \<exists>p d. parent r = Some p \<and>
        sourceAttributes p ''default_security_list_id'' = Some (VString d)"
    if "set xs \<subseteq> {?a, ?b, ?c}" for xs
    using that by (auto simp: exampleSecurityList_def exampleVcn_def)
  have prert: "\<forall>r\<in>set [exampleRouteTable]. \<exists>p d. parent r = Some p \<and>
        sourceAttributes p ''default_route_table_id'' = Some (VString d)"
    by (simp add: exampleRouteTable_def exampleVcn_def)
  have predhcp: "\<forall>r\<in>set [exampleDhcpOptions]. \<exists>p d. parent r = Some p \<and>
        sourceAttributes p ''default_dhcp_options_id'' = Some (VString d)"
    by (simp add: exampleDhcpOptions_def exampleVcn_def)
  note thm1 = default_resources_reclassified
                [of "[?a, ?b]" specHelpers "[exampleRouteTable]" "[exampleDhcpOptions]"]
  from thm1 pre[of "[?a, ?b]"]
  obtain out where o: "processDefaultSecurityLists specHelpers [?a, ?b] = Returns (out, None)"
    and l: "list_all2 ?R [?a, ?b] out" by auto
  from l obtain out1 out2 where out: "out = [out1, out2]" and r1: "?R ?a out1" and r2: "?R ?b out2"
    by (auto simp: list_all2_Cons1)
  from thm1 prert
  obtain outrt where ort: "processDefaultRouteTables specHelpers [exampleRouteTable] = Returns (outrt, None)"
    and lrt: "list_all2 ?Rrt [exampleRouteTable] outrt" by blast
  from lrt obtain out4 where outrt: "outrt = [out4]" and r4: "?Rrt exampleRouteTable out4"
    by (auto simp: list_all2_Cons1)
  from thm1 predhcp
  obtain outdh where odh: "processDefaultDhcpOptions specHelpers [exampleDhcpOptions] = Returns (outdh, None)"
    and ldh: "list_all2 ?Rdhcp [exampleDhcpOptions] outdh" by blast
  from ldh obtain out5 where outdh: "outdh = [out5]" and r5: "?Rdhcp exampleDhcpOptions out5"
    by (auto simp: list_all2_Cons1)
  from default_resources_reclassified[of "[?c]" specHelpers "[]" "[]"] pre[of "[?c]"]
  obtain out' where o': "processDefaultSecurityLists specHelpers [?c] = Returns (out', None)"
    and l': "list_all2 ?R [?c] out'" by auto
  from l' obtain out3 where out': "out' = [out3]" and r3: "?R ?c out3"
    by (auto simp: list_all2_Cons1)
  from r1 have 1: "terraformClass out1 = ''oci_core_default_security_list''"
      "sourceAttributes out1 ''manage_default_resource_id'' = Some (VString ''ocid1.securitylist.default'')"
      "terraformReferenceIdString out1 = ''oci_core_vcn.vcn1.default_security_list_id''"
    by (auto simp: reclassifiedAsDefault_def exampleSecurityList_def exampleVcn_def specHelpers_def)
  from r2 have 2: "out2 = ?b"
    by (auto simp: reclassifiedAsDefault_def exampleSecurityList_def exampleVcn_def)
  from r3 have 3: "terraformClass out3 = ''oci_core_default_security_list''"
      "terraformReferenceIdString out3 = []"
    by (auto simp: reclassifiedAsDefault_def exampleSecurityList_def exampleVcn_def)
  from r4 have 4: "terraformClass out4 = ''oci_core_default_route_table''"
      "sourceAttributes out4 ''manage_default_resource_id'' = Some (VString ''ocid1.routetable.default'')"
      "terraformReferenceIdString out4 = ''oci_core_vcn.vcn1.default_route_table_id''"
    by (auto simp: reclassifiedAsDefault_def exampleRouteTable_def exampleVcn_def specHelpers_def)
  from r5 have 5: "terraformClass out5 = ''oci_core_default_dhcp_options''"
      "sourceAttributes out5 ''manage_default_resource_id'' = Some (VString ''ocid1.dhcpoptions.default'')"
      "terraformReferenceIdString out5 = ''oci_core_vcn.vcn1.default_dhcp_options_id''"
    by (auto simp: reclassifiedAsDefault_def exampleDhcpOptions_def exampleVcn_def specHelpers_def)
  from o o' ort odh out out' outrt outdh 1 2 3 4 5 show ?thesis by blast
qed

lemma processLoadBalancerChild_result:
  assumes "sourceAttributes r nameAttr = Some (VString n)" and "parent r = Some p"
  shows "processLoadBalancerChild nameAttr mk r =
           Returns (setAttr (setId r (mk n (id_field p))) ''load_balancer_id'' (VString (id_field p)))"
  using assms by (simp add: processLoadBalancerChild_def asString_def)

text \<open>
  C3: when every backend set has a string \<^verbatim>\<open>name\<close> and a parent, the hook returns
  without error; each backend set's id becomes \<^verbatim>\<open>getBackendSetCompositeId\<close> of its
  name and its parent's id, and its \<^verbatim>\<open>load_balancer_id\<close> attribute becomes the
  parent's id. The id depends on that pair only: two backend sets with the same name under
  parents with the same id get the same id.
\<close>

theorem backend_set_composite_id:
  assumes "\<forall>r\<in>set backendSets. \<exists>n p. sourceAttributes r ''name'' = Some (VString n) \<and> parent r = Some p"
  shows "\<exists>out. processLoadBalancerBackendSets h backendSets = Returns (out, None) \<and>
     list_all2
       (\<lambda>backendSet result.
          \<exists>n p. sourceAttributes backendSet ''name'' = Some (VString n) \<and> parent backendSet = Some p \<and>
            id_field result = getBackendSetCompositeId h n (id_field p) \<and>
            sourceAttributes result =
              (sourceAttributes backendSet)(''load_balancer_id'' \<mapsto> VString (id_field p)) \<and>
            terraformClass result = terraformClass backendSet \<and>
            terraformName result = terraformName backendSet \<and>
            parent result = parent backendSet)
       backendSets out \<and>
     (\<forall>i j n p q. i < length backendSets \<and> j < length backendSets \<and>
        sourceAttributes (backendSets ! i) ''name'' = Some (VString n) \<and>
        sourceAttributes (backendSets ! j) ''name'' = Some (VString n) \<and>
        parent (backendSets ! i) = Some p \<and> parent (backendSets ! j) = Some q \<and>
        id_field p = id_field q \<longrightarrow> id_field (out ! i) = id_field (out ! j))"
proof -
  let ?R = "\<lambda>backendSet result.
          \<exists>n p. sourceAttributes backendSet ''name'' = Some (VString n) \<and> parent backendSet = Some p \<and>
            id_field result = getBackendSetCompositeId h n (id_field p) \<and>
            sourceAttributes result =
              (sourceAttributes backendSet)(''load_balancer_id'' \<mapsto> VString (id_field p)) \<and>
            terraformClass result = terraformClass backendSet \<and>
            terraformName result = terraformName backendSet \<and>
            parent result = parent backendSet"
  have "\<forall>r\<in>set backendSets. \<exists>r'.
          processLoadBalancerChild ''name'' (\<lambda>name parentId. getBackendSetCompositeId h name parentId) r
            = Returns r' \<and> ?R r r'"
  proof
    fix r assume "r \<in> set backendSets"
    with assms obtain n p where np: "sourceAttributes r ''name'' = Some (VString n)" "parent r = Some p"
      by blast
    show "\<exists>r'. processLoadBalancerChild ''name'' (\<lambda>name parentId. getBackendSetCompositeId h name parentId) r
            = Returns r' \<and> ?R r r'"
      unfolding processLoadBalancerChild_result[OF np] using np by simp
  qed
  from forEach_list_all2[OF this] obtain out where
    run: "forEach (processLoadBalancerChild ''name''
            (\<lambda>name parentId. getBackendSetCompositeId h name parentId)) backendSets = Returns out"
    and rel: "list_all2 ?R backendSets out" by blast
  have det: "id_field (out ! i) = id_field (out ! j)"
    if "i < length backendSets" "j < length backendSets"
      "sourceAttributes (backendSets ! i) ''name'' = Some (VString n)"
      "sourceAttributes (backendSets ! j) ''name'' = Some (VString n)"
      "parent (backendSets ! i) = Some p" "parent (backendSets ! j) = Some q"
      "id_field p = id_field q" for i j n p q
  proof -
    from rel that(1) have "?R (backendSets ! i) (out ! i)" by (simp add: list_all2_conv_all_nth)
    with that(3,5) have i: "id_field (out ! i) = getBackendSetCompositeId h n (id_field p)" by auto
    from rel that(2) have "?R (backendSets ! j) (out ! j)" by (simp add: list_all2_conv_all_nth)
    with that(4,6) have "id_field (out ! j) = getBackendSetCompositeId h n (id_field q)" by auto
    with i that(7) show ?thesis by simp
  qed
  have "processLoadBalancerBackendSets h backendSets = Returns (out, None)"
    using run by (simp add: processLoadBalancerBackendSets_def returningNil_def)
  with rel det show ?thesis by blast
qed

theorem backend_set_composite_id_witness:
  "\<exists>result. processLoadBalancerBackendSets specHelpers [exampleBackendSet] = Returns ([result], None) \<and>
     id_field result = getBackendSetCompositeId specHelpers ''bs1'' ''lb1'' \<and>
     id_field result = ''lb1/bs1'' \<and>
     sourceAttributes result ''load_balancer_id'' = Some (VString ''lb1'')"
proof -
  have pre: "\<forall>r\<in>set [exampleBackendSet]. \<exists>n p. sourceAttributes r ''name'' = Some (VString n) \<and> parent r = Some p"
    by (simp add: exampleBackendSet_def)
  from backend_set_composite_id[OF pre, of specHelpers] obtain out where
    run: "processLoadBalancerBackendSets specHelpers [exampleBackendSet] = Returns (out, None)"
    and rel: "list_all2
       (\<lambda>backendSet result.
          \<exists>n p. sourceAttributes backendSet ''name'' = Some (VString n) \<and> parent backendSet = Some p \<and>
            id_field result = getBackendSetCompositeId specHelpers n (id_field p) \<and>
            sourceAttributes result =
              (sourceAttributes backendSet)(''load_balancer_id'' \<mapsto> VString (id_field p)) \<and>
            terraformClass result = terraformClass backendSet \<and>
            terraformName result = terraformName backendSet \<and>
            parent result = parent backendSet)
       [exampleBackendSet] out"
    by blast
  from rel obtain result where out: "out = [result]"
    and r: "id_field result = getBackendSetCompositeId specHelpers ''bs1'' ''lb1''"
           "sourceAttributes result ''load_balancer_id'' = Some (VString ''lb1'')"
    by (auto simp: list_all2_Cons1 exampleBackendSet_def exampleLoadBalancer_def)
  from r(1) have "id_field result = ''lb1/bs1''" by (simp add: specHelpers_def)
  with run out r show ?thesis by blast
qed

lemma processDefaultResource_idem:
  assumes "processDefaultResource h key cls r = Returns r'"
  shows "processDefaultResource h key cls r' = Returns r'"
proof -
  from assms obtain p d where p: "parent r = Some p" and d: "sourceAttributes p key = Some (VString d)"
    by (auto simp: processDefaultResource_def asString_Some split: option.splits)
  show ?thesis
  proof (cases "id_field r = d")
    case False
    with assms p d have "r' = r"
      by (simp add: processDefaultResource_def asString_def)
    with assms show ?thesis by simp
  next
    case True
    show ?thesis
    proof (cases "omitFromExport p")
      case True
      with assms p d \<open>id_field r = d\<close> have
        "r' = setTerraformClass (setAttr r ''manage_default_resource_id'' (VString d)) cls"
        by (simp add: processDefaultResource_def asString_def Let_def)
      then show ?thesis using p d True
        by (simp add: processDefaultResource_def asString_def Let_def
              setTerraformClass_def setAttr_def)
    next
      case False
      with assms p d \<open>id_field r = d\<close> have
        "r' = setTerraformReferenceIdString
                (setTerraformClass (setAttr r ''manage_default_resource_id'' (VString d)) cls)
                (getTerraformReference h p @ ''.'' @ key)"
        by (simp add: processDefaultResource_def asString_def Let_def)
      then show ?thesis using p d False
        by (simp add: processDefaultResource_def asString_def Let_def
              setTerraformClass_def setAttr_def setTerraformReferenceIdString_def)
    qed
  qed
qed

lemma processLoadBalancerChild_idem:
  assumes "processLoadBalancerChild nameAttr mk r = Returns r'" and "nameAttr \<noteq> ''load_balancer_id''"
  shows "processLoadBalancerChild nameAttr mk r' = Returns r'"
proof -
  from assms(1) obtain n p where n: "sourceAttributes r nameAttr = Some (VString n)"
    and p: "parent r = Some p"
    by (auto simp: processLoadBalancerChild_def asString_Some split: option.splits)
  from assms(1) have r': "r' = setAttr (setId r (mk n (id_field p))) ''load_balancer_id'' (VString (id_field p))"
    unfolding processLoadBalancerChild_result[OF n p] by simp
  have "sourceAttributes r' nameAttr = Some (VString n)" "parent r' = Some p"
    using n p assms(2) by (simp_all add: r')
  from processLoadBalancerChild_result[OF this, of mk] show ?thesis
    by (simp add: r' setAttr_def setId_def)
qed

lemma processLoadBalancerBackend_idem:
  assumes "processLoadBalancerBackend h r = Returns r'"
  shows "processLoadBalancerBackend h r' = Returns r'"
proof -
  from assms obtain n p pn lb where n: "sourceAttributes r ''name'' = Some (VString n)"
    and p: "parent r = Some p"
    and pn: "sourceAttributes p ''name'' = Some (VString pn)"
    and lb: "sourceAttributes p ''load_balancer_id'' = Some (VString lb)"
    by (auto simp: processLoadBalancerBackend_def asString_Some split: option.splits)
  show ?thesis
  proof (cases "omitFromExport p")
    case True
    with assms n p pn lb have
      "r' = setAttr (setAttr (setId r (getBackendCompositeId h n pn lb)) ''load_balancer_id'' (VString lb))
              ''backendset_name'' (VString pn)"
      by (simp add: processLoadBalancerBackend_def asString_def Let_def)
    then show ?thesis using n p pn lb True
      by (simp add: processLoadBalancerBackend_def asString_def Let_def setAttr_def setId_def)
  next
    case False
    with assms n p pn lb have
      "r' = setAttr (setAttr (setId r (getBackendCompositeId h n pn lb)) ''load_balancer_id'' (VString lb))
              ''backendset_name''
              (VInterpolation (getDoubleExpHclString h (getTerraformReference h p) ''name''))"
      by (simp add: processLoadBalancerBackend_def asString_def Let_def)
    then show ?thesis using n p pn lb False
      by (simp add: processLoadBalancerBackend_def asString_def Let_def setAttr_def setId_def)
  qed
qed

lemma hook_idem:
  assumes "\<And>r r'. body r = Returns r' \<Longrightarrow> body r' = Returns r'"
    and "returningNil (forEach body rs) = Returns (out, None)"
  shows "returningNil (forEach body out) = Returns (out, None)"
  using forEach_idem[of body rs out] assms
  by (simp add: returningNil_Returns)

text \<open>
  C5: a hook applied to the list it returned gives that list back, resource for resource:
  instance processing, the three default-resource hooks, and the six load balancer hooks
  that build composite ids.
\<close>

theorem post_processing_idempotent:
  "(processInstances h g resources = (g', Returns (out, None)) \<longrightarrow>
      snd (processInstances h g' out) = Returns (out, None))
   \<and> (processDefaultSecurityLists h resources = Returns (out, None) \<longrightarrow>
      processDefaultSecurityLists h out = Returns (out, None))
   \<and> (processDefaultRouteTables h resources = Returns (out, None) \<longrightarrow>
      processDefaultRouteTables h out = Returns (out, None))
   \<and> (processDefaultDhcpOptions h resources = Returns (out, None) \<longrightarrow>
      processDefaultDhcpOptions h out = Returns (out, None))
   \<and> (processLoadBalancerBackends h resources = Returns (out, None) \<longrightarrow>
      processLoadBalancerBackends h out = Returns (out, None))
   \<and> (processLoadBalancerBackendSets h resources = Returns (out, None) \<longrightarrow>
      processLoadBalancerBackendSets h out = Returns (out, None))
   \<and> (processLoadBalancerHostnames h resources = Returns (out, None) \<longrightarrow>
      processLoadBalancerHostnames h out = Returns (out, None))
   \<and> (processLoadBalancerPathRouteSets h resources = Returns (out, None) \<longrightarrow>
      processLoadBalancerPathRouteSets h out = Returns (out, None))
   \<and> (processLoadBalancerRuleSets h resources = Returns (out, None) \<longrightarrow>
      processLoadBalancerRuleSets h out = Returns (out, None))
   \<and> (processLoadBalancerCertificates h resources = Returns (out, None) \<longrightarrow>
      processLoadBalancerCertificates h out = Returns (out, None))"
proof (intro conjI impI)
  assume "processInstances h g resources = (g', Returns (out, None))"
  then show "snd (processInstances h g' out) = Returns (out, None)"
    by (rule processInstances_idem)
next
  assume "processDefaultSecurityLists h resources = Returns (out, None)"
  then show "processDefaultSecurityLists h out = Returns (out, None)"
    unfolding processDefaultSecurityLists_def
    by (rule hook_idem[rotated]) (rule processDefaultResource_idem)
next
  assume "processDefaultRouteTables h resources = Returns (out, None)"
  then show "processDefaultRouteTables h out = Returns (out, None)"
    unfolding processDefaultRouteTables_def
    by (rule hook_idem[rotated]) (rule processDefaultResource_idem)
next
  assume "processDefaultDhcpOptions h resources = Returns (out, None)"
  then show "processDefaultDhcpOptions h out = Returns (out, None)"
    unfolding processDefaultDhcpOptions_def
    by (rule hook_idem[rotated]) (rule processDefaultResource_idem)
next
  assume "processLoadBalancerBackends h resources = Returns (out, None)"
  then show "processLoadBalancerBackends h out = Returns (out, None)"
    unfolding processLoadBalancerBackends_def
    by (rule hook_idem[rotated]) (rule processLoadBalancerBackend_idem)
next
  assume "processLoadBalancerBackendSets h resources = Returns (out, None)"
  then show "processLoadBalancerBackendSets h out = Returns (out, None)"
    unfolding processLoadBalancerBackendSets_def
    by (rule hook_idem[rotated]) (rule processLoadBalancerChild_idem, assumption, simp)
next
  assume "processLoadBalancerHostnames h resources = Returns (out, None)"
  then show "processLoadBalancerHostnames h out = Returns (out, None)"
    unfolding processLoadBalancerHostnames_def
    by (rule hook_idem[rotated]) (rule processLoadBalancerChild_idem, assumption, simp)
next
  assume "processLoadBalancerPathRouteSets h resources = Returns (out, None)"
  then show "processLoadBalancerPathRouteSets h out = Returns (out, None)"
    unfolding processLoadBalancerPathRouteSets_def
    by (rule hook_idem[rotated]) (rule processLoadBalancerChild_idem, assumption, simp)
next
  assume "processLoadBalancerRuleSets h resources = Returns (out, None)"
  then show "processLoadBalancerRuleSets h out = Returns (out, None)"
    unfolding processLoadBalancerRuleSets_def
    by (rule hook_idem[rotated]) (rule processLoadBalancerChild_idem, assumption, simp)
next
  assume "processLoadBalancerCertificates h resources = Returns (out, None)"
  then show "processLoadBalancerCertificates h out = Returns (out, None)"
    unfolding processLoadBalancerCertificates_def
    by (rule hook_idem[rotated]) (rule processLoadBalancerChild_idem, assumption, simp)
qed

theorem post_processing_idempotent_witness:
  "(\<exists>g' out. processInstances specHelpers noGlobals [sizedInstance ''47'', sizedInstance ''50'']
        = (g', Returns (out, None)) \<and>
      snd (processInstances specHelpers g' out) = Returns (out, None))
   \<and> (\<exists>out. processDefaultSecurityLists specHelpers
        [exampleSecurityList ''ocid1.securitylist.default'' ''sl1'' False,
         exampleSecurityList ''ocid1.securitylist.2'' ''sl2'' False] = Returns (out, None) \<and>
      processDefaultSecurityLists specHelpers out = Returns (out, None))
   \<and> (\<exists>out. processLoadBalancerBackendSets specHelpers [exampleBackendSet] = Returns (out, None) \<and>
      processLoadBalancerBackendSets specHelpers out = Returns (out, None))
   \<and> (\<exists>out. processLoadBalancerBackends specHelpers [exampleBackend] = Returns (out, None) \<and>
      processLoadBalancerBackends specHelpers out = Returns (out, None))"
proof (intro conjI)
  from example_sized_run obtain g' r1 r2 where
    run: "processInstances specHelpers noGlobals [sizedInstance ''47'', sizedInstance ''50'']
      = (g', Returns ([r1, r2], None))" by blast
  from post_processing_idempotent
         [of specHelpers noGlobals "[sizedInstance ''47'', sizedInstance ''50'']" g' "[r1, r2]"] run
  have "snd (processInstances specHelpers g' [r1, r2]) = Returns ([r1, r2], None)" by simp
  with run show "\<exists>g' out. processInstances specHelpers noGlobals [sizedInstance ''47'', sizedInstance ''50'']
        = (g', Returns (out, None)) \<and>
      snd (processInstances specHelpers g' out) = Returns (out, None)" by blast
next
  let ?sl = "[exampleSecurityList ''ocid1.securitylist.default'' ''sl1'' False,
         exampleSecurityList ''ocid1.securitylist.2'' ''sl2'' False]"
  have "\<forall>r\<in>set ?sl. \<exists>p d. parent r = Some p \<and>
          sourceAttributes p ''default_security_list_id'' = Some (VString d)"
    by (simp add: exampleSecurityList_def exampleVcn_def)
  from default_hook[OF this, of specHelpers "''oci_core_default_security_list''"]
  obtain out where run: "processDefaultSecurityLists specHelpers ?sl = Returns (out, None)"
    by (auto simp: processDefaultSecurityLists_def)
  from post_processing_idempotent[of specHelpers noGlobals ?sl noGlobals out] run
  have "processDefaultSecurityLists specHelpers out = Returns (out, None)" by simp
  with run show "\<exists>out. processDefaultSecurityLists specHelpers ?sl = Returns (out, None) \<and>
      processDefaultSecurityLists specHelpers out = Returns (out, None)" by blast
next
  obtain out where run: "processLoadBalancerBackendSets specHelpers [exampleBackendSet] = Returns (out, None)"
    by (simp add: processLoadBalancerBackendSets_def returningNil_def processLoadBalancerChild_def
          exampleBackendSet_def asString_def)
  from post_processing_idempotent[of specHelpers noGlobals "[exampleBackendSet]" noGlobals out] run
  have "processLoadBalancerBackendSets specHelpers out = Returns (out, None)" by simp
  with run show "\<exists>out. processLoadBalancerBackendSets specHelpers [exampleBackendSet] = Returns (out, None) \<and>
      processLoadBalancerBackendSets specHelpers out = Returns (out, None)" by blast
next
  obtain out where run: "processLoadBalancerBackends specHelpers [exampleBackend] = Returns (out, None)"
    by (simp add: processLoadBalancerBackends_def returningNil_def processLoadBalancerBackend_def
          exampleBackend_def asString_def Let_def)
  from post_processing_idempotent[of specHelpers noGlobals "[exampleBackend]" noGlobals out] run
  have "processLoadBalancerBackends specHelpers out = Returns (out, None)" by simp
  with run show "\<exists>out. processLoadBalancerBackends specHelpers [exampleBackend] = Returns (out, None) \<and>
      processLoadBalancerBackends specHelpers out = Returns (out, None)" by blast
qed

subsection \<open>The Reference Map\<close>

lemma registerBootVolume_ref:
  "referenceMap (registerBootVolume h g i) k =
     (if asString (sourceAttributes i ''boot_volume_id'') = Some k
      then Some (getDoubleExpHclString h (getTerraformReference h i) ''boot_volume_id'')
      else referenceMap g k)"
  by (simp add: registerBootVolume_def split: option.splits)

lemma registerImage_ref:
  "referenceMap (registerImage h g i) k =
     (if asString (sourceAttributes i ''image'') = Some k
      then Some (getVarHclString h (terraformName i @ ''_source_image_id''))
      else referenceMap g k)"
  by (simp add: registerImage_def Let_def split: option.splits)

lemma processInstance_globals:
  "fst (processInstance h g i) = g \<or>
   fst (processInstance h g i) = registerBootVolume h g i \<or>
   fst (processInstance h g i) = registerImage h (registerBootVolume h g i) i"
proof (cases "hasInstancePoolTag i")
  case True
  then show ?thesis by (simp add: processInstance_tagged)
next
  case False
  show ?thesis
  proof (cases "firstSourceDetails i")
    case None
    with False show ?thesis by (simp add: processInstance_plain)
  next
    case (Some p)
    then obtain sd others where "firstSourceDetails i = Some (sd, others)" by (cases p) simp
    with False show ?thesis by (simp add: processInstance_detailed)
  qed
qed

lemma processInstance_ref:
  "(referenceMap g k \<noteq> None \<longrightarrow> referenceMap (fst (processInstance h g i)) k \<noteq> None) \<and>
   (asString (sourceAttributes i ''boot_volume_id'') \<noteq> Some k \<and>
    asString (sourceAttributes i ''image'') \<noteq> Some k \<longrightarrow>
      referenceMap (fst (processInstance h g i)) k = referenceMap g k)"
  using processInstance_globals[of h g i]
  by (auto simp: registerBootVolume_ref registerImage_ref)

lemma instances_loop_ref:
  "(referenceMap g k \<noteq> None \<longrightarrow> referenceMap (fst (processInstances_loop h g rs)) k \<noteq> None) \<and>
   (\<not> registers (Instances rs) k \<longrightarrow>
      referenceMap (fst (processInstances_loop h g rs)) k = referenceMap g k)"
proof (induction rs arbitrary: g)
  case Nil
  then show ?case by simp
next
  case (Cons i rest)
  obtain g1 i' v where step: "processInstance h g i = (g1, i', v)" by (metis prod_cases3)
  have g1: "fst (processInstance h g i) = g1" using step by simp
  have fst_loop: "fst (processInstances_loop h g (i # rest)) = g1 \<or>
        fst (processInstances_loop h g (i # rest)) = fst (processInstances_loop h g1 rest)"
    using step by (cases v) (auto split: prod.splits)
  have reg: "registers (Instances (i # rest)) k \<longleftrightarrow>
        (asString (sourceAttributes i ''boot_volume_id'') = Some k \<or>
         asString (sourceAttributes i ''image'') = Some k) \<or> registers (Instances rest) k"
    by (simp add: registers_def)
  from processInstance_ref[of g k h i] Cons.IH[of g1] fst_loop show ?case
    unfolding reg g1 by auto
qed

lemma instances_ref:
  "(referenceMap g k \<noteq> None \<longrightarrow> referenceMap (fst (processInstances h g rs)) k \<noteq> None) \<and>
   (\<not> registers (Instances rs) k \<longrightarrow>
      referenceMap (fst (processInstances h g rs)) k = referenceMap g k)"
proof -
  have "fst (processInstances h g rs) = fst (processInstances_loop h g rs)"
    by (auto simp: processInstances_def split: prod.splits outcome.splits option.splits)
  then show ?thesis using instances_loop_ref[of g k h rs] by simp
qed

lemma ad_loop_ref:
  "(referenceMap g k \<noteq> None \<longrightarrow> referenceMap (fst (processAvailabilityDomains_loop h idx g ads)) k \<noteq> None) \<and>
   (\<not> registers (AvailabilityDomains ads) k \<longrightarrow>
      referenceMap (fst (processAvailabilityDomains_loop h idx g ads)) k = referenceMap g k)"
proof (induction ads arbitrary: idx g)
  case Nil
  then show ?case by simp
next
  case (Cons ad rest)
  let ?ad' = "setAttr ad ''index'' (VInt (int idx + 1))"
  have reg: "registers (AvailabilityDomains (ad # rest)) k \<longleftrightarrow>
        asString (sourceAttributes ad ''name'') = Some k \<or> registers (AvailabilityDomains rest) k"
    by (simp add: registers_def)
  show ?case
  proof (cases "namedAd ad")
    case False
    then have "fst (processAvailabilityDomains_loop h idx g (ad # rest)) = g"
      by (auto simp: Let_def namedAd_def asString_def split: option.splits val.splits)
    then show ?thesis by simp
  next
    case True
    then obtain s where s: "sourceAttributes ad ''name'' = Some (VString s)" "s \<noteq> []"
      by (auto simp: namedAd_def)
    let ?g1 = "g\<lparr>referenceMap := (referenceMap g)(s \<mapsto> getDataSourceHclString h
                 (getTerraformReference h ?ad') ''name'')\<rparr>"
    have "fst (processAvailabilityDomains_loop h idx g (ad # rest)) =
          fst (processAvailabilityDomains_loop h (Suc idx) ?g1 rest)"
      using s by (simp add: Let_def asString_def split: prod.splits)
    with Cons.IH[of ?g1 "Suc idx"] s show ?thesis
      unfolding reg by (auto simp: asString_def)
  qed
qed

lemma ns_ref:
  "(referenceMap g k \<noteq> None \<longrightarrow> referenceMap (fst (processObjectStorageNamespace h g nss)) k \<noteq> None) \<and>
   (\<not> registers (ObjectStorageNamespaces nss) k \<longrightarrow>
      referenceMap (fst (processObjectStorageNamespace h g nss)) k = referenceMap g k)"
proof (induction nss arbitrary: g)
  case Nil
  then show ?case by simp
next
  case (Cons ns rest)
  have reg: "registers (ObjectStorageNamespaces (ns # rest)) k \<longleftrightarrow>
        asString (sourceAttributes ns ''namespace'') = Some k \<or> registers (ObjectStorageNamespaces rest) k"
    by (simp add: registers_def)
  show ?case
  proof (cases "\<exists>s. sourceAttributes ns ''namespace'' = Some (VString s) \<and> s \<noteq> []")
    case False
    have "fst (processObjectStorageNamespace h g (ns # rest)) = g"
    proof (cases "asString (sourceAttributes ns ''namespace'')")
      case None
      then show ?thesis by simp
    next
      case (Some t)
      then have "sourceAttributes ns ''namespace'' = Some (VString t)" by (simp add: asString_Some)
      with False have "t = []" by blast
      with Some show ?thesis by simp
    qed
    then show ?thesis by simp
  next
    case True
    then obtain s where s: "sourceAttributes ns ''namespace'' = Some (VString s)" "s \<noteq> []"
      by auto
    let ?g1 = "g\<lparr>referenceMap := (referenceMap g)
                 (s \<mapsto> getDataSourceHclString h (getTerraformReference h ns) ''namespace'')\<rparr>"
    have "fst (processObjectStorageNamespace h g (ns # rest)) =
          fst (processObjectStorageNamespace h ?g1 rest)"
      using s by (simp add: Let_def asString_def split: prod.splits)
    with Cons.IH[of ?g1] s show ?thesis
      unfolding reg by (auto simp: asString_def)
  qed
qed

lemma runHook_ref:
  "(referenceMap g k \<noteq> None \<longrightarrow> referenceMap (runHook h g call) k \<noteq> None) \<and>
   (\<not> registers call k \<longrightarrow> referenceMap (runHook h g call) k = referenceMap g k)"
proof (cases call)
  case (Instances rs)
  then show ?thesis using instances_ref[of g k h rs] by (simp add: runHook_def)
next
  case (AvailabilityDomains rs)
  then show ?thesis using ad_loop_ref[of g k h 0 rs]
    by (simp add: runHook_def processAvailabilityDomains_def)
next
  case (ObjectStorageNamespaces rs)
  then show ?thesis using ns_ref[of g k h rs] by (simp add: runHook_def)
qed

lemma imageInstance_run:
  "fst (processInstances h g [imageInstance name]) =
     registerImage h (registerBootVolume h g (imageInstance name)) (imageInstance name)"
proof -
  have tag: "\<not> hasInstancePoolTag (imageInstance name)"
    by (simp add: hasInstancePoolTag_def imageInstance_def exampleInstance_def)
  have f: "firstSourceDetails (imageInstance name) = Some ([''source_type'' \<mapsto> VString ''image''], [])"
    by (simp add: firstSourceDetails_def imageInstance_def exampleInstance_def)
  show ?thesis
    by (simp add: processInstances_def processInstance_detailed[OF tag f]
          split: prod.splits verdict.splits outcome.splits option.splits)
qed

text \<open>
  C1 as stated fails: two instances launched from the same image register the image id
  one after the other, and the second registration replaces the first one's expression.
\<close>

theorem first_writer_wins_counterexample:
  "referenceMap (runHooks specHelpers noGlobals [Instances [imageInstance ''inst1'']]) ''ocid1.image.1''
     = Some ''var.inst1_source_image_id''
   \<and> referenceMap (runHooks specHelpers noGlobals
        [Instances [imageInstance ''inst1''], Instances [imageInstance ''inst2'']]) ''ocid1.image.1''
     = Some ''var.inst2_source_image_id''"
  by (simp add: runHooks_def runHook_def imageInstance_run registerImage_ref)
     (simp add: imageInstance_def exampleInstance_def asString_def specHelpers_def)

text \<open>
  C1, as amended: for every key present in the Reference Map and every sequence of
  post-processing operations, the key is still present afterwards, and it has kept its
  value if no operation of the sequence registers that key (as the \<^verbatim>\<open>boot_volume_id\<close>
  or \<^verbatim>\<open>image\<close> string of an instance, the \<^verbatim>\<open>name\<close> of an availability domain or
  the \<^verbatim>\<open>namespace\<close> string of a namespace). Registration is a plain assignment:
  nothing keeps a later registration of the same key from replacing the value.
\<close>

theorem reference_map_last_writer_wins:
  assumes "referenceMap g k = Some e"
  shows "referenceMap (runHooks h g calls) k \<noteq> None \<and>
         (list_all (\<lambda>call. \<not> registers call k) calls \<longrightarrow>
            referenceMap (runHooks h g calls) k = Some e)"
  using assms
proof (induction calls arbitrary: g e)
  case Nil
  then show ?case by (simp add: runHooks_def)
next
  case (Cons call rest)
  have unfold: "runHooks h g (call # rest) = runHooks h (runHook h g call) rest"
    by (simp add: runHooks_def)
  from runHook_ref[of g k h call] Cons.prems obtain e' where
    e': "referenceMap (runHook h g call) k = Some e'"
    and same: "\<not> registers call k \<longrightarrow> e' = e"
    by auto
  from Cons.IH[OF e'] same show ?case
    unfolding unfold by auto
qed

theorem reference_map_last_writer_wins_witness:
  "referenceMap bootVolumeRegistered ''ocid1.bootvolume.9'' = Some ''oci_core_boot_volume.bv9.id''
   \<and> list_all (\<lambda>call. \<not> registers call ''ocid1.bootvolume.9'')
        [Instances [imageInstance ''inst1'', plainInstance], AvailabilityDomains exampleAds]
   \<and> referenceMap (runHooks specHelpers bootVolumeRegistered
        [Instances [imageInstance ''inst1'', plainInstance], AvailabilityDomains exampleAds])
        ''ocid1.bootvolume.9'' = Some ''oci_core_boot_volume.bv9.id''"
proof -
  have g: "referenceMap bootVolumeRegistered ''ocid1.bootvolume.9'' = Some ''oci_core_boot_volume.bv9.id''"
    by (simp add: bootVolumeRegistered_def)
  have n: "list_all (\<lambda>call. \<not> registers call ''ocid1.bootvolume.9'')
        [Instances [imageInstance ''inst1'', plainInstance], AvailabilityDomains exampleAds]"
    by (simp add: registers_def imageInstance_def plainInstance_def exampleInstance_def
          exampleAds_def exampleAd_def asString_def)
  from reference_map_last_writer_wins[OF g, of specHelpers
         "[Instances [imageInstance ''inst1'', plainInstance], AvailabilityDomains exampleAds]"] n g
  show ?thesis by simp
qed

subsection \<open>Pagination\<close>

lemma remaining_None [simp]: "listRemainingPages list items None = Some (items, None)"
  by (subst listRemainingPages.simps) simp

lemma remaining_Inl:
  "list (Some token) = Inl err \<Longrightarrow> listRemainingPages list items (Some token) = Some (items, Some err)"
  by (subst listRemainingPages.simps) simp

lemma remaining_Inr:
  "list (Some token) = Inr r \<Longrightarrow>
     listRemainingPages list items (Some token) =
       listRemainingPages list (items @ Items r) (OpcNextPage r)"
  by (subst listRemainingPages.simps) simp

lemma remaining_pages:
  "pagesFrom list page pages \<Longrightarrow> page = Some token \<Longrightarrow>
     listRemainingPages list items page = Some (items @ concat pages, None)"
proof (induction arbitrary: items token rule: pagesFrom.induct)
  case (lastPage list page r)
  then show ?case by (simp add: remaining_Inr)
next
  case (nextPage list page r token' pages)
  then show ?case by (simp add: remaining_Inr)
qed

lemma remaining_fails:
  "failsFrom list page err \<Longrightarrow> page = Some token \<Longrightarrow>
     \<exists>collected. listRemainingPages list items page = Some (collected, Some err)"
proof (induction arbitrary: items token rule: failsFrom.induct)
  case (failsHere list page err)
  then show ?case by (simp add: remaining_Inl)
next
  case (failsLater list page r token' err)
  then show ?case by (simp add: remaining_Inr)
qed

lemma remaining_returned:
  assumes "listRemainingPages list items page = Some y"
  shows "case page of
           None \<Rightarrow> y = (items, None)
         | Some token \<Rightarrow>
             (case snd y of
                None \<Rightarrow> \<exists>pages. pagesFrom list page pages \<and> fst y = items @ concat pages
              | Some e \<Rightarrow> failsFrom list page e)"
proof (rule listRemainingPages.raw_induct
         [where P = "\<lambda>list items page y.
            case page of
              None \<Rightarrow> y = (items, None)
            | Some token \<Rightarrow>
                (case snd y of
                   None \<Rightarrow> \<exists>pages. pagesFrom list page pages \<and> fst y = items @ concat pages
                 | Some e \<Rightarrow> failsFrom list page e)", OF _ assms], goal_cases)
  case (1 f list items page y)
  show ?case
  proof (cases page)
    case None
    with 1(2) show ?thesis by simp
  next
    case (Some token)
    show ?thesis
    proof (cases "list (Some token)")
      case (Inl e)
      with 1(2) Some show ?thesis by (auto intro: failsHere)
    next
      case (Inr r)
      with 1(2) Some have rec: "f list (items @ Items r) (OpcNextPage r) = Some y"
        by simp
      note ih = 1(1)[OF rec]
      show ?thesis
      proof (cases "OpcNextPage r")
        case None
        with ih have "y = (items @ Items r, None)" by simp
        moreover have "pagesFrom list page [Items r]"
          using Inr Some None by (auto intro: lastPage)
        ultimately show ?thesis using Some by auto
      next
        case more: (Some t)
        show ?thesis
        proof (cases "snd y")
          case None
          with ih more obtain pages where p: "pagesFrom list (Some t) pages"
            and c: "fst y = (items @ Items r) @ concat pages" by auto
          from p Inr Some more have "pagesFrom list page (Items r # pages)"
            by (auto intro: nextPage)
          with c None Some show ?thesis by auto
        next
          case e: (Some e)
          with ih more have "failsFrom list (Some t) e" by simp
          with Inr Some more have "failsFrom list page e"
            by (auto intro: failsLater)
          with e Some show ?thesis by simp
        qed
      qed
    qed
  qed
qed

lemma all_pages:
  assumes "pagesFrom list None pages"
  shows "\<exists>r. list None = Inr r \<and>
           listRemainingPages list (Items r) (OpcNextPage r) = Some (concat pages, None)"
  using assms
proof (cases rule: pagesFrom.cases)
  case (lastPage r)
  then show ?thesis by simp
next
  case (nextPage r token rest)
  from remaining_pages[OF nextPage(4) refl, of "Items r"] nextPage show ?thesis by simp
qed

lemma all_fails:
  assumes "failsFrom list None e"
  shows "list None = Inl e \<or>
         (\<exists>r collected. list None = Inr r \<and>
            listRemainingPages list (Items r) (OpcNextPage r) = Some (collected, Some e))"
  using assms
proof (cases rule: failsFrom.cases)
  case failsHere
  then show ?thesis by simp
next
  case (failsLater r token)
  from remaining_fails[OF failsLater(3) refl, of "Items r"] failsLater show ?thesis by auto
qed

lemma all_returned:
  assumes "list None = Inr r"
    and "listRemainingPages list (Items r) (OpcNextPage r) = Some (items, None)"
  shows "\<exists>pages. pagesFrom list None pages \<and> items = concat pages"
proof (cases "OpcNextPage r")
  case None
  with assms have "items = Items r" by simp
  moreover have "pagesFrom list None [Items r]" using assms(1) None by (rule lastPage)
  ultimately show ?thesis by (intro exI[of _ "[Items r]"]) simp
next
  case (Some t)
  from remaining_returned[OF assms(2)] Some obtain pages where
    p: "pagesFrom list (Some t) pages" and i: "items = Items r @ concat pages" by auto
  from assms(1) Some p have "pagesFrom list None (Items r # pages)" by (rule nextPage)
  with i show ?thesis by (intro exI[of _ "Items r # pages"]) simp
qed

lemma resources_length:
  "findIdentityTags_resources Read cls p tags = Returns (results, None) \<Longrightarrow>
     length results = length tags"
proof (induction tags arbitrary: results)
  case Nil
  then show ?case by simp
next
  case (Cons tag rest)
  from Cons.prems obtain resource results' where
    "findIdentityTags_resources Read cls p rest = Returns (results', None)"
    "results = resource # results'"
    by (auto simp: Let_def split: sum.splits option.splits outcome.splits prod.splits)
  with Cons.IH show ?case by simp
qed

text \<open>
  The list operation is a function, so the pages from a token are determined: there is
  at most one chain of pages, and a chain that reaches its last page meets no error.
\<close>

lemma pagesFrom_unique:
  "pagesFrom list page pages \<Longrightarrow> pagesFrom list page pages' \<Longrightarrow> pages = pages'"
proof (induction arbitrary: pages' rule: pagesFrom.induct)
  case (lastPage list page r)
  from lastPage(3) lastPage(1,2) show ?case
    by (cases rule: pagesFrom.cases) auto
next
  case (nextPage list page r token pages)
  from nextPage(5) nextPage(1,2) nextPage(4) show ?case
    by (cases rule: pagesFrom.cases) auto
qed

lemma pagesFrom_no_failure:
  "pagesFrom list page pages \<Longrightarrow> \<not> failsFrom list page err"
proof (induction rule: pagesFrom.induct)
  case (lastPage list page r)
  show ?case
  proof
    assume "failsFrom list page err"
    then show False using lastPage by (cases rule: failsFrom.cases) auto
  qed
next
  case (nextPage list page r token pages)
  show ?case
  proof
    assume "failsFrom list page err"
    then show False using nextPage by (cases rule: failsFrom.cases) auto
  qed
qed

text \<open>
  C7: for both paginated list operations, with the list API a function from the page
  token to an error or a page. If the pages fetched in order from the first request reach
  a page without a next-page token, \<^verbatim>\<open>Get\<close> returns without error with the items
  of all of them concatenated in \<^verbatim>\<open>s.Res\<close>, and \<^verbatim>\<open>findIdentityTags\<close> builds its
  resources from that concatenation. Conversely, whenever either returns without error,
  what it hands on is the concatenation of all the pages up to the one without a token,
  never fewer. If a page request on the way returns an error, both return that error
  (\<^verbatim>\<open>findIdentityTags\<close> with no resources at all).
\<close>

theorem pagination_collects_every_page:
  "(pagesFrom ListTagNamespaces None pages \<longrightarrow>
      (\<exists>r. ListTagNamespaces None = Inr r \<and>
         Get ListTagNamespaces s = Some (s\<lparr>Res := Some (r\<lparr>Items := concat pages\<rparr>)\<rparr>, None)))
   \<and> (Get ListTagNamespaces s = Some (s', None) \<longrightarrow>
      (\<exists>allPages r. pagesFrom ListTagNamespaces None allPages \<and> Res s' = Some r \<and>
         Items r = concat allPages))
   \<and> (failsFrom ListTagNamespaces None err \<longrightarrow>
      (\<exists>s''. Get ListTagNamespaces s = Some (s'', Some err)))
   \<and> (pagesFrom ListTags None tagPages \<longrightarrow>
      findIdentityTags ListTags Read resourceClass parentResource =
        Some (findIdentityTags_resources Read resourceClass parentResource (concat tagPages)))
   \<and> (findIdentityTags ListTags Read resourceClass parentResource = Some (Returns (results, None)) \<longrightarrow>
      (\<exists>allPages. pagesFrom ListTags None allPages \<and> length results = length (concat allPages) \<and>
         findIdentityTags_resources Read resourceClass parentResource (concat allPages)
           = Returns (results, None)))
   \<and> (failsFrom ListTags None err \<longrightarrow>
      findIdentityTags ListTags Read resourceClass parentResource = Some (Returns ([], Some err)))"
proof (intro conjI impI)
  assume "pagesFrom ListTagNamespaces None pages"
  from all_pages[OF this] show "\<exists>r. ListTagNamespaces None = Inr r \<and>
         Get ListTagNamespaces s = Some (s\<lparr>Res := Some (r\<lparr>Items := concat pages\<rparr>)\<rparr>, None)"
    by (auto simp: Get_def)
next
  assume g: "Get ListTagNamespaces s = Some (s', None)"
  then obtain r items where r: "ListTagNamespaces None = Inr r"
    and l: "listRemainingPages ListTagNamespaces (Items r) (OpcNextPage r) = Some (items, None)"
    and s': "s' = s\<lparr>Res := Some (r\<lparr>Items := items\<rparr>)\<rparr>"
    by (auto simp: Get_def split: sum.splits option.splits prod.splits)
  from all_returned[OF r l] s'
  show "\<exists>allPages r. pagesFrom ListTagNamespaces None allPages \<and> Res s' = Some r \<and>
         Items r = concat allPages"
    by auto
next
  assume "failsFrom ListTagNamespaces None err"
  from all_fails[OF this] show "\<exists>s''. Get ListTagNamespaces s = Some (s'', Some err)"
    by (auto simp: Get_def)
next
  assume "pagesFrom ListTags None tagPages"
  from all_pages[OF this] show "findIdentityTags ListTags Read resourceClass parentResource =
        Some (findIdentityTags_resources Read resourceClass parentResource (concat tagPages))"
    by (auto simp: findIdentityTags_def)
next
  assume f: "findIdentityTags ListTags Read resourceClass parentResource = Some (Returns (results, None))"
  then obtain r items where r: "ListTags None = Inr r"
    and l: "listRemainingPages ListTags (Items r) (OpcNextPage r) = Some (items, None)"
    and b: "findIdentityTags_resources Read resourceClass parentResource items = Returns (results, None)"
    by (auto simp: findIdentityTags_def split: sum.splits option.splits prod.splits)
  from all_returned[OF r l] b resources_length[OF b]
  show "\<exists>allPages. pagesFrom ListTags None allPages \<and> length results = length (concat allPages) \<and>
         findIdentityTags_resources Read resourceClass parentResource (concat allPages)
           = Returns (results, None)"
    by auto
next
  assume "failsFrom ListTags None err"
  from all_fails[OF this]
  show "findIdentityTags ListTags Read resourceClass parentResource = Some (Returns ([], Some err))"
    by (auto simp: findIdentityTags_def)
qed

lemma threePages_pages: "pagesFrom threePages None [[1, 2], [3], [4, 5]]"
proof -
  have 3: "pagesFrom threePages (Some ''p3'') [[4, 5]]"
    using lastPage[of threePages "Some ''p3''" "\<lparr>Items = [4, 5], OpcNextPage = None\<rparr>"]
    by (simp add: threePages_def)
  have 2: "pagesFrom threePages (Some ''p2'') [[3], [4, 5]]"
    using nextPage[of threePages "Some ''p2''" "\<lparr>Items = [3], OpcNextPage = Some ''p3''\<rparr>" "''p3''", OF _ _ 3]
    by (simp add: threePages_def)
  show ?thesis
    using nextPage[of threePages None "\<lparr>Items = [1, 2], OpcNextPage = Some ''p2''\<rparr>" "''p2''", OF _ _ 2]
    by (simp add: threePages_def)
qed

lemma thirdPageFails_fails: "failsFrom thirdPageFails None (ErrService ''TooManyRequests'')"
proof -
  have 3: "failsFrom thirdPageFails (Some ''p3'') (ErrService ''TooManyRequests'')"
    by (rule failsHere) (simp add: thirdPageFails_def)
  have 2: "failsFrom thirdPageFails (Some ''p2'') (ErrService ''TooManyRequests'')"
    using failsLater[of thirdPageFails "Some ''p2''" "\<lparr>Items = [3], OpcNextPage = Some ''p3''\<rparr>" "''p3''", OF _ _ 3]
    by (simp add: thirdPageFails_def)
  show ?thesis
    using failsLater[of thirdPageFails None "\<lparr>Items = [1, 2], OpcNextPage = Some ''p2''\<rparr>" "''p2''", OF _ _ 2]
    by (simp add: thirdPageFails_def)
qed

lemma twoTagPages_pages:
  "pagesFrom twoTagPages None [[\<lparr>Name = Some ''CostCenter''\<rparr>], [\<lparr>Name = Some ''Owner''\<rparr>]]"
proof -
  have 2: "pagesFrom twoTagPages (Some ''p2'') [[\<lparr>Name = Some ''Owner''\<rparr>]]"
    using lastPage[of twoTagPages "Some ''p2''" "\<lparr>Items = [\<lparr>Name = Some ''Owner''\<rparr>], OpcNextPage = None\<rparr>"]
    by (simp add: twoTagPages_def)
  show ?thesis
    using nextPage[of twoTagPages None
        "\<lparr>Items = [\<lparr>Name = Some ''CostCenter''\<rparr>], OpcNextPage = Some ''p2''\<rparr>" "''p2''", OF _ _ 2]
    by (simp add: twoTagPages_def)
qed

lemma secondTagPageFails_fails: "failsFrom secondTagPageFails None (ErrService ''TooManyRequests'')"
proof -
  have 2: "failsFrom secondTagPageFails (Some ''p2'') (ErrService ''TooManyRequests'')"
    by (rule failsHere) (simp add: secondTagPageFails_def)
  show ?thesis
    using failsLater[of secondTagPageFails None
        "\<lparr>Items = [\<lparr>Name = Some ''CostCenter''\<rparr>], OpcNextPage = Some ''p2''\<rparr>" "''p2''", OF _ _ 2]
    by (simp add: secondTagPageFails_def)
qed

theorem pagination_collects_every_page_witness:
  "pagesFrom threePages None [[1, 2], [3], [4, 5]]
   \<and> Get threePages \<lparr>Res = None\<rparr>
       = Some (\<lparr>Res = Some \<lparr>Items = [1, 2, 3, 4, 5], OpcNextPage = Some ''p2''\<rparr>\<rparr>, None)
   \<and> failsFrom thirdPageFails None (ErrService ''TooManyRequests'')
   \<and> (\<exists>s''. Get thirdPageFails \<lparr>Res = None\<rparr> = Some (s'', Some (ErrService ''TooManyRequests'')))
   \<and> (\<exists>r1 r2. findIdentityTags twoTagPages exampleRead ''oci_identity_tag'' exampleTagNamespace
         = Some (Returns ([r1, r2], None)) \<and>
        terraformName r1 = ''export_compartment_CostCenter'' \<and>
        terraformName r2 = ''export_compartment_Owner'')
   \<and> findIdentityTags secondTagPageFails exampleRead ''oci_identity_tag'' exampleTagNamespace
       = Some (Returns ([], Some (ErrService ''TooManyRequests'')))"
proof -
  note t1 = pagination_collects_every_page
    [of threePages "[[1, 2], [3], [4, 5]]" "\<lparr>Res = None\<rparr>" "\<lparr>Res = None\<rparr>" "ErrService ''TooManyRequests''"
        twoTagPages "[[\<lparr>Name = Some ''CostCenter''\<rparr>], [\<lparr>Name = Some ''Owner''\<rparr>]]"
        exampleRead "''oci_identity_tag''" exampleTagNamespace "[]"]
  note t2 = pagination_collects_every_page
    [of thirdPageFails "[]" "\<lparr>Res = None\<rparr>" "\<lparr>Res = None\<rparr>" "ErrService ''TooManyRequests''"
        secondTagPageFails "[]" exampleRead "''oci_identity_tag''" exampleTagNamespace "[]"]
  from t1 threePages_pages have a: "Get threePages \<lparr>Res = None\<rparr>
       = Some (\<lparr>Res = Some \<lparr>Items = [1, 2, 3, 4, 5], OpcNextPage = Some ''p2''\<rparr>\<rparr>, None)"
    by (auto simp: threePages_def)
  from t2 thirdPageFails_fails have b:
    "\<exists>s''. Get thirdPageFails \<lparr>Res = None\<rparr> = Some (s'', Some (ErrService ''TooManyRequests''))"
    by blast
  from t1 twoTagPages_pages have
    "findIdentityTags twoTagPages exampleRead ''oci_identity_tag'' exampleTagNamespace =
       Some (findIdentityTags_resources exampleRead ''oci_identity_tag'' exampleTagNamespace
         (concat [[\<lparr>Name = Some ''CostCenter''\<rparr>], [\<lparr>Name = Some ''Owner''\<rparr>]]))"
    by blast
  then have c: "\<exists>r1 r2. findIdentityTags twoTagPages exampleRead ''oci_identity_tag'' exampleTagNamespace
         = Some (Returns ([r1, r2], None)) \<and>
        terraformName r1 = ''export_compartment_CostCenter'' \<and>
        terraformName r2 = ''export_compartment_Owner''"
    by (simp add: exampleRead_def exampleTagNamespace_def)
  from t2 secondTagPageFails_fails have d:
    "findIdentityTags secondTagPageFails exampleRead ''oci_identity_tag'' exampleTagNamespace
       = Some (Returns ([], Some (ErrService ''TooManyRequests'')))"
    by blast
  from threePages_pages a thirdPageFails_fails b c d show ?thesis by blast
qed

end
